theory Spec2Isabelle
  imports Complex_Main
begin

section \<open>Data model\<close>

text \<open>
  The kernels of \<^verbatim>\<open>align.cpp\<close> work on two dense arrays of shape
  \<open>(lB+1) \<times> (lA+1)\<close>, \<^verbatim>\<open>matrix\<close> (scores) and \<^verbatim>\<open>traceback\<close> (directions
  0..3), indexed \<^verbatim>\<open>[i][j]\<close> with \<open>i\<close> running over sequence B and \<open>j\<close> over
  sequence A. An array is modelled as a function of the two indices and an assignment
  \<^verbatim>\<open>m[i][j] = v\<close> as \<open>put m i j v\<close>. The C type \<^verbatim>\<open>int\<close> is \<open>int\<close> or \<open>nat\<close>;
  all integer values of the program are bounded by the lengths of the input lists, and
  wrap-around at \<open>2^31\<close> is not modelled.
\<close>

type_synonym 'a matrix = "nat \<Rightarrow> nat \<Rightarrow> 'a"

definition put :: "'a matrix \<Rightarrow> nat \<Rightarrow> nat \<Rightarrow> 'a \<Rightarrow> 'a matrix" where
  "put m i j v = m(i := (m i)(j := v))"

text \<open>
  The C type \<^verbatim>\<open>float\<close>. The scores are values of a type \<open>'f\<close>, and the operations
  that the source applies to them are the fields of a record: \<open>flit\<close> converts an
  integer or the literal \<^verbatim>\<open>0.0\<close> to \<^verbatim>\<open>float\<close>, \<open>fadd\<close>, \<open>fsub\<close> and \<open>fmul\<close> are
  \<^verbatim>\<open>+\<close>, \<^verbatim>\<open>-\<close> and \<^verbatim>\<open>*\<close> on two \<^verbatim>\<open>float\<close>s, \<open>fgt\<close> and \<open>fge\<close> are \<^verbatim>\<open>>\<close> and
  \<^verbatim>\<open>>=\<close>, and \<open>fbonus score sonority_factor\<close> is the value that
  \<^verbatim>\<open>score = score * (1.0 + sonority_factor)\<close> stores (the product is formed in
  \<^verbatim>\<open>double\<close>). Nothing is assumed of the operations but that each is a function of
  its operands: rounding, infinities and NaN are whatever the arithmetic says, and a
  theorem stated for every arithmetic holds of the binary32 arithmetic of the compiled
  code, in which every sum, difference and product is rounded to \<^verbatim>\<open>float\<close>. The lists of weights, the similarity mapping,
  \<^verbatim>\<open>scale\<close> and \<^verbatim>\<open>sonority_factor\<close> hold the values as \<^verbatim>\<open>extract<float>\<close> and the
  call deliver them.
\<close>

record 'f arith =
  flit :: "int \<Rightarrow> 'f"
  fadd :: "'f \<Rightarrow> 'f \<Rightarrow> 'f"
  fsub :: "'f \<Rightarrow> 'f \<Rightarrow> 'f"
  fmul :: "'f \<Rightarrow> 'f \<Rightarrow> 'f"
  fgt :: "'f \<Rightarrow> 'f \<Rightarrow> bool"
  fge :: "'f \<Rightarrow> 'f \<Rightarrow> bool"
  fbonus :: "'f \<Rightarrow> 'f \<Rightarrow> 'f"

text \<open>
  The arithmetic of the reals, without rounding. It agrees with binary32 on an input as
  long as every value that occurs is a binary32 number; the concrete inputs below are
  chosen so.
\<close>

definition exact :: "real arith" where
  "exact = \<lparr> flit = real_of_int, fadd = (\<lambda>a b. a + b), fsub = (\<lambda>a b. a - b),
             fmul = (\<lambda>a b. a * b), fgt = (\<lambda>a b. a > b), fge = (\<lambda>a b. a \<ge> b),
             fbonus = (\<lambda>score sonority_factor. score * (1 + sonority_factor)) \<rparr>"

text \<open>
  The stack arrays of a kernel are not initialised by the source; every cell is written
  before it is read. The model starts them from a fixed content.
\<close>

definition fresh_matrix :: "'f arith \<Rightarrow> 'f matrix" where
  "fresh_matrix ar = (\<lambda>_ _. flit ar 0)"

definition fresh_traceback :: "nat matrix" where
  "fresh_traceback = (\<lambda>_ _. 0)"

text \<open>
  \<^verbatim>\<open>for(i=1;i<lB+1;i++) for(j=1;j<lA+1;j++) body\<close>: the row-major double loop
  shared by all kernels, the scorer builders and \<^verbatim>\<open>edit_dist\<close>.
\<close>

definition for_cells :: "nat \<Rightarrow> nat \<Rightarrow> (nat \<Rightarrow> nat \<Rightarrow> 's \<Rightarrow> 's) \<Rightarrow> 's \<Rightarrow> 's" where
  "for_cells lB lA body s = fold (\<lambda>i. fold (\<lambda>j. body i j) [1..<Suc lA]) [1..<Suc lB] s"

text \<open>
  The two restriction tests, written inline in every kernel:
  \<^verbatim>\<open>arrayB[i-1] < 0 && arrayA[j-1] > 0 && j != lA\<close> guards the vertical move
  (a gap in A), \<^verbatim>\<open>arrayA[j-1] < 0 && arrayB[i-1] > 0 && i != lB\<close> the horizontal
  move (a gap in B).
\<close>

definition restrictA :: "int list \<Rightarrow> nat \<Rightarrow> int list \<Rightarrow> nat \<Rightarrow> nat \<Rightarrow> bool" where
  "restrictA arrayA lA arrayB i j \<longleftrightarrow> arrayB ! (i - 1) < 0 \<and> arrayA ! (j - 1) > 0 \<and> j \<noteq> lA"

definition restrictB :: "int list \<Rightarrow> int list \<Rightarrow> nat \<Rightarrow> nat \<Rightarrow> nat \<Rightarrow> bool" where
  "restrictB arrayA arrayB lB i j \<longleftrightarrow> arrayA ! (j - 1) < 0 \<and> arrayB ! (i - 1) > 0 \<and> i \<noteq> lB"

section \<open>The kernels\<close>

subsection \<open>Traceback walk of \<^verbatim>\<open>_global\<close>, \<^verbatim>\<open>_overlap\<close> and \<^verbatim>\<open>_dialign\<close>\<close>

text \<open>
  \<^verbatim>\<open>while(i > 0 || j > 0)\<close> with the three moves; the three kernels repeat the loop
  verbatim. The indices are C \<^verbatim>\<open>int\<close>s that are only decremented, so the model
  keeps them as \<open>int\<close>; a read of \<^verbatim>\<open>traceback\<close> at a negative index is undefined
  behaviour and gives \<open>None\<close>.
\<close>

function traceback_walk ::
  "nat matrix \<Rightarrow> int \<Rightarrow> int \<Rightarrow> int list \<Rightarrow> int list \<Rightarrow> (int list \<times> int list) option" where
  "traceback_walk traceback i j almA almB =
     (if i > 0 \<or> j > 0 then
        (if i < 0 \<or> j < 0 then None
         else if traceback (nat i) (nat j) = 3 then
           traceback_walk traceback (i - 1) j (almA[nat j := almA ! nat j + 1]) almB
         else if traceback (nat i) (nat j) = 1 then
           traceback_walk traceback (i - 1) (j - 1) almA almB
         else
           traceback_walk traceback i (j - 1) almA (almB[nat i := almB ! nat i + 1]))
      else Some (almA, almB))"
  by pat_completeness auto
termination
  by (relation "measure (\<lambda>(traceback, i, j, almA, almB). nat (i + j + 2))") auto

declare traceback_walk.simps [simp del]

text \<open>
  The walks start after \<^verbatim>\<open>i--; j--;\<close> from the values that the double loop has left
  in \<^verbatim>\<open>i\<close> and \<^verbatim>\<open>j\<close>, that is at \<open>(lB, lA)\<close>. When \<open>lB = 0\<close> the inner loop has
  never run and \<^verbatim>\<open>j\<close>, which the source declares without a value, is read unassigned:
  undefined behaviour, \<open>None\<close>.
\<close>

definition walk_start :: "nat \<Rightarrow> nat \<Rightarrow> (int \<times> int) option" where
  "walk_start lB lA = (if lB = 0 then None else Some (int lB, int lA))"

subsection \<open>\<^verbatim>\<open>_global\<close>\<close>

definition global_init :: "'f arith \<Rightarrow> nat \<Rightarrow> nat \<Rightarrow> 'f matrix \<Rightarrow> 'f \<Rightarrow> 'f matrix \<times> nat matrix" where
  "global_init ar lA lB scorer scale =
     fold (\<lambda>i (matrix, traceback).
             (put matrix i 0 (fadd ar (matrix (i - 1) 0) (fmul ar (scorer i 0) scale)),
              put traceback i 0 3))
          [1..<Suc lB]
       (fold (\<lambda>i (matrix, traceback).
               (put matrix 0 i (fadd ar (matrix 0 (i - 1)) (fmul ar (scorer 0 i) scale)),
                put traceback 0 i 2))
            [1..<Suc lA]
          (put (fresh_matrix ar) 0 0 (flit ar 0), put fresh_traceback 0 0 1))"

definition global_choice ::
  "'f arith \<Rightarrow> int list \<Rightarrow> nat \<Rightarrow> int list \<Rightarrow> nat \<Rightarrow> 'f matrix \<Rightarrow> 'f \<Rightarrow>
   'f matrix \<Rightarrow> nat matrix \<Rightarrow> nat \<Rightarrow> nat \<Rightarrow> 'f \<times> nat" where
  "global_choice ar arrayA lA arrayB lB scorer scale matrix traceback i j =
     (let gapA = (if restrictA arrayA lA arrayB i j
                  then fsub ar (matrix (i - 1) j) (flit ar 1000000)
                  else if traceback (i - 1) j = 3
                  then fadd ar (matrix (i - 1) j) (fmul ar (scorer i 0) scale)
                  else fadd ar (matrix (i - 1) j) (scorer i 0));
          gapB = (if restrictB arrayA arrayB lB i j
                  then fsub ar (matrix i (j - 1)) (flit ar 1000000)
                  else if traceback i (j - 1) = 2
                  then fadd ar (matrix i (j - 1)) (fmul ar (scorer 0 j) scale)
                  else fadd ar (matrix i (j - 1)) (scorer 0 j));
          match = fadd ar (matrix (i - 1) (j - 1)) (scorer i j)
      in if fgt ar gapA match \<and> fge ar gapA gapB then (gapA, 3)
         else if fge ar match gapB then (match, 1)
         else (gapB, 2))"

text \<open>One pass of the loop body: the chosen value and direction are stored at \<open>(i, j)\<close>.\<close>

definition store :: "nat \<Rightarrow> nat \<Rightarrow> 'f \<times> nat \<Rightarrow> 'f matrix \<times> nat matrix \<Rightarrow> 'f matrix \<times> nat matrix" where
  "store i j c s = (put (fst s) i j (fst c), put (snd s) i j (snd c))"

definition global_fill ::
  "'f arith \<Rightarrow> int list \<Rightarrow> nat \<Rightarrow> int list \<Rightarrow> nat \<Rightarrow> 'f matrix \<Rightarrow> 'f \<Rightarrow> 'f matrix \<times> nat matrix" where
  "global_fill ar arrayA lA arrayB lB scorer scale =
     for_cells lB lA
       (\<lambda>i j s. store i j (global_choice ar arrayA lA arrayB lB scorer scale (fst s) (snd s) i j) s)
       (global_init ar lA lB scorer scale)"

definition global_align ::
  "'f arith \<Rightarrow> int list \<Rightarrow> nat \<Rightarrow> int list \<Rightarrow> nat \<Rightarrow> 'f matrix \<Rightarrow> 'f \<Rightarrow> int list \<Rightarrow> int list \<Rightarrow>
   ('f \<times> int list \<times> int list) option" where
  "global_align ar arrayA lA arrayB lB scorer scale almA almB =
     (let (matrix, traceback) = global_fill ar arrayA lA arrayB lB scorer scale;
          sim = matrix lB lA
      in case walk_start lB lA of
           None \<Rightarrow> None
         | Some (i, j) \<Rightarrow>
             map_option (\<lambda>(almA', almB'). (sim, almA', almB'))
               (traceback_walk traceback i j almA almB))"

subsection \<open>\<^verbatim>\<open>_local\<close>\<close>

text \<open>
  The local kernel keeps, besides the two arrays, the running maximum \<^verbatim>\<open>max_score\<close>
  and its position \<^verbatim>\<open>imax\<close>, \<^verbatim>\<open>jmax\<close>. The source declares the position
  without an initial value; \<open>None\<close> is the unassigned variable.
\<close>

record 'f local_state =
  l_matrix :: "'f matrix"
  l_traceback :: "nat matrix"
  max_score :: 'f
  imax :: "nat option"
  jmax :: "nat option"

definition local_init :: "'f arith \<Rightarrow> nat \<Rightarrow> nat \<Rightarrow> 'f local_state" where
  "local_init ar lA lB =
     \<lparr> l_matrix =
         fold (\<lambda>i matrix. put matrix i 0 (flit ar 0)) [1..<Suc lB]
           (fold (\<lambda>i matrix. put matrix 0 i (flit ar 0)) [1..<Suc lA]
              (put (fresh_matrix ar) 0 0 (flit ar 0))),
       l_traceback =
         fold (\<lambda>i traceback. put traceback i 0 0) [1..<Suc lB]
           (fold (\<lambda>i traceback. put traceback 0 i 0) [1..<Suc lA] (put fresh_traceback 0 0 0)),
       max_score = flit ar 0, imax = None, jmax = None \<rparr>"

definition local_choice ::
  "'f arith \<Rightarrow> int list \<Rightarrow> nat \<Rightarrow> int list \<Rightarrow> nat \<Rightarrow> 'f matrix \<Rightarrow> 'f \<Rightarrow>
   'f matrix \<Rightarrow> nat matrix \<Rightarrow> nat \<Rightarrow> nat \<Rightarrow> 'f \<times> nat" where
  "local_choice ar arrayA lA arrayB lB scorer scale matrix traceback i j =
     (let null0 = flit ar 0;
          gapA = (if restrictA arrayA lA arrayB i j
                  then fsub ar (matrix (i - 1) j) (flit ar 1000000)
                  else if traceback (i - 1) j = 3
                  then fadd ar (matrix (i - 1) j) (fmul ar (scorer i 0) scale)
                  else fadd ar (matrix (i - 1) j) (scorer i 0));
          null1 = (if restrictA arrayA lA arrayB i j then flit ar (- 1000000) else null0);
          gapB = (if restrictB arrayA arrayB lB i j
                  then fsub ar (matrix i (j - 1)) (flit ar 1000000)
                  else if traceback i (j - 1) = 2
                  then fadd ar (matrix i (j - 1)) (fmul ar (scorer 0 j) scale)
                  else fadd ar (matrix i (j - 1)) (scorer 0 j));
          null = (if restrictB arrayA arrayB lB i j then flit ar (- 1000000) else null1);
          match = fadd ar (matrix (i - 1) (j - 1)) (scorer i j)
      in if fge ar gapA match \<and> fge ar gapA gapB \<and> fge ar gapA null then (gapA, 3)
         else if fge ar match gapB \<and> fge ar match null then (match, 1)
         else if fgt ar gapB null then (gapB, 2)
         else (null, 0))"

definition local_cell ::
  "'f arith \<Rightarrow> int list \<Rightarrow> nat \<Rightarrow> int list \<Rightarrow> nat \<Rightarrow> 'f matrix \<Rightarrow> 'f \<Rightarrow>
   nat \<Rightarrow> nat \<Rightarrow> 'f local_state \<Rightarrow> 'f local_state" where
  "local_cell ar arrayA lA arrayB lB scorer scale i j s =
     (let c = local_choice ar arrayA lA arrayB lB scorer scale (l_matrix s) (l_traceback s) i j;
          s' = s\<lparr> l_matrix := put (l_matrix s) i j (fst c),
                  l_traceback := put (l_traceback s) i j (snd c) \<rparr>
      in if fge ar (l_matrix s' i j) (max_score s')
         then s'\<lparr> max_score := l_matrix s' i j, imax := Some i, jmax := Some j \<rparr>
         else s')"

definition local_fill ::
  "'f arith \<Rightarrow> int list \<Rightarrow> nat \<Rightarrow> int list \<Rightarrow> nat \<Rightarrow> 'f matrix \<Rightarrow> 'f \<Rightarrow> 'f local_state" where
  "local_fill ar arrayA lA arrayB lB scorer scale =
     for_cells lB lA (local_cell ar arrayA lA arrayB lB scorer scale) (local_init ar lA lB)"

text \<open>
  \<^verbatim>\<open>while(traceback[i][j] != 0)\<close>: the walk of the local kernel returns the cell
  where it stopped together with the two gap-count vectors.
\<close>

function local_walk ::
  "nat matrix \<Rightarrow> int \<Rightarrow> int \<Rightarrow> int list \<Rightarrow> int list \<Rightarrow> (int \<times> int \<times> int list \<times> int list) option" where
  "local_walk traceback i j almA almB =
     (if i < 0 \<or> j < 0 then None
      else if traceback (nat i) (nat j) \<noteq> 0 then
        (if traceback (nat i) (nat j) = 3 then
           local_walk traceback (i - 1) j (almA[nat j := almA ! nat j + 1]) almB
         else if traceback (nat i) (nat j) = 1 then
           local_walk traceback (i - 1) (j - 1) almA almB
         else if traceback (nat i) (nat j) = 2 then
           local_walk traceback i (j - 1) almA (almB[nat i := almB ! nat i + 1])
         else Some (i, j, almA, almB))
      else Some (i, j, almA, almB))"
  by pat_completeness auto
termination
  by (relation "measure (\<lambda>(traceback, i, j, almA, almB). nat (i + j + 2))") auto

declare local_walk.simps [simp del]

text \<open>\<^verbatim>\<open>for(k=a;k<b;k++) alm[k] = -1\<close>.\<close>

definition mark :: "nat \<Rightarrow> nat \<Rightarrow> int list \<Rightarrow> int list" where
  "mark a b alm = fold (\<lambda>k alm. alm[k := - 1]) [a..<b] alm"

definition local_align ::
  "'f arith \<Rightarrow> int list \<Rightarrow> nat \<Rightarrow> int list \<Rightarrow> nat \<Rightarrow> 'f matrix \<Rightarrow> 'f \<Rightarrow> int list \<Rightarrow> int list \<Rightarrow>
   ('f \<times> int list \<times> int list) option" where
  "local_align ar arrayA lA arrayB lB scorer scale almA almB =
     (let s = local_fill ar arrayA lA arrayB lB scorer scale
      in case (imax s, jmax s) of
           (Some i0, Some j0) \<Rightarrow>
             (let sim = l_matrix s i0 j0;
                  almA1 = mark j0 lA almA;
                  almB1 = mark i0 lB almB
              in case local_walk (l_traceback s) (int i0) (int j0) almA1 almB1 of
                   None \<Rightarrow> None
                 | Some (i, j, almA2, almB2) \<Rightarrow>
                     Some (sim, mark 0 (nat j) almA2, mark 0 (nat i) almB2))
         | _ \<Rightarrow> None)"

subsection \<open>\<^verbatim>\<open>_overlap\<close>\<close>

definition overlap_init :: "'f arith \<Rightarrow> nat \<Rightarrow> nat \<Rightarrow> 'f matrix \<times> nat matrix" where
  "overlap_init ar lA lB =
     fold (\<lambda>i (matrix, traceback). (put matrix i 0 (flit ar 0), put traceback i 0 3))
          [1..<Suc lB]
       (fold (\<lambda>i (matrix, traceback). (put matrix 0 i (flit ar 0), put traceback 0 i 2))
            [1..<Suc lA]
          (put (fresh_matrix ar) 0 0 (flit ar 0), put fresh_traceback 0 0 1))"

definition overlap_gapA ::
  "'f arith \<Rightarrow> int list \<Rightarrow> nat \<Rightarrow> int list \<Rightarrow> 'f matrix \<Rightarrow> 'f \<Rightarrow>
   'f matrix \<Rightarrow> nat matrix \<Rightarrow> nat \<Rightarrow> nat \<Rightarrow> 'f" where
  "overlap_gapA ar arrayA lA arrayB scorer scale matrix traceback i j =
     (if restrictA arrayA lA arrayB i j then fsub ar (matrix (i - 1) j) (flit ar 1000000)
      else if j = lA then matrix (i - 1) j
      else if traceback (i - 1) j = 3
      then fadd ar (matrix (i - 1) j) (fmul ar (scorer i 0) scale)
      else fadd ar (matrix (i - 1) j) (scorer i 0))"

definition overlap_gapB ::
  "'f arith \<Rightarrow> int list \<Rightarrow> int list \<Rightarrow> nat \<Rightarrow> 'f matrix \<Rightarrow> 'f \<Rightarrow>
   'f matrix \<Rightarrow> nat matrix \<Rightarrow> nat \<Rightarrow> nat \<Rightarrow> 'f" where
  "overlap_gapB ar arrayA arrayB lB scorer scale matrix traceback i j =
     (if restrictB arrayA arrayB lB i j then fsub ar (matrix i (j - 1)) (flit ar 1000000)
      else if i = lB then matrix i (j - 1)
      else if traceback i (j - 1) = 2
      then fadd ar (matrix i (j - 1)) (fmul ar (scorer 0 j) scale)
      else fadd ar (matrix i (j - 1)) (scorer 0 j))"

definition overlap_choice ::
  "'f arith \<Rightarrow> int list \<Rightarrow> nat \<Rightarrow> int list \<Rightarrow> nat \<Rightarrow> 'f matrix \<Rightarrow> 'f \<Rightarrow>
   'f matrix \<Rightarrow> nat matrix \<Rightarrow> nat \<Rightarrow> nat \<Rightarrow> 'f \<times> nat" where
  "overlap_choice ar arrayA lA arrayB lB scorer scale matrix traceback i j =
     (let gapA = overlap_gapA ar arrayA lA arrayB scorer scale matrix traceback i j;
          gapB = overlap_gapB ar arrayA arrayB lB scorer scale matrix traceback i j;
          match = fadd ar (matrix (i - 1) (j - 1)) (scorer i j)
      in if fgt ar gapA match \<and> fge ar gapA gapB then (gapA, 3)
         else if fge ar match gapB then (match, 1)
         else (gapB, 2))"

definition overlap_fill ::
  "'f arith \<Rightarrow> int list \<Rightarrow> nat \<Rightarrow> int list \<Rightarrow> nat \<Rightarrow> 'f matrix \<Rightarrow> 'f \<Rightarrow> 'f matrix \<times> nat matrix" where
  "overlap_fill ar arrayA lA arrayB lB scorer scale =
     for_cells lB lA
       (\<lambda>i j s. store i j (overlap_choice ar arrayA lA arrayB lB scorer scale (fst s) (snd s) i j) s)
       (overlap_init ar lA lB)"

definition overlap_align ::
  "'f arith \<Rightarrow> int list \<Rightarrow> nat \<Rightarrow> int list \<Rightarrow> nat \<Rightarrow> 'f matrix \<Rightarrow> 'f \<Rightarrow> int list \<Rightarrow> int list \<Rightarrow>
   ('f \<times> int list \<times> int list) option" where
  "overlap_align ar arrayA lA arrayB lB scorer scale almA almB =
     (let (matrix, traceback) = overlap_fill ar arrayA lA arrayB lB scorer scale;
          sim = matrix lB lA
      in case walk_start lB lA of
           None \<Rightarrow> None
         | Some (i, j) \<Rightarrow>
             map_option (\<lambda>(almA', almB'). (sim, almA', almB'))
               (traceback_walk traceback i j almA almB))"

subsection \<open>\<^verbatim>\<open>_repeats\<close>\<close>

definition repeats_init :: "'f arith \<Rightarrow> nat \<Rightarrow> nat \<Rightarrow> 'f matrix \<times> nat matrix" where
  "repeats_init ar lA lB =
     fold (\<lambda>i (matrix, traceback). (put matrix i 0 (flit ar 0), put traceback i 0 3))
          [1..<Suc lB]
       (fold (\<lambda>i (matrix, traceback). (put matrix 0 i (flit ar 0), put traceback 0 i 2))
            [1..<Suc lA]
          (put (fresh_matrix ar) 0 0 (flit ar 0), put fresh_traceback 0 0 1))"

text \<open>
  In \<^verbatim>\<open>_repeats\<close> every branch of the two gap computations assigns \<^verbatim>\<open>null\<close>,
  so the value set with \<^verbatim>\<open>gapA\<close> is overwritten by the one set with \<^verbatim>\<open>gapB\<close>.
\<close>

definition repeats_choice ::
  "'f arith \<Rightarrow> int list \<Rightarrow> nat \<Rightarrow> int list \<Rightarrow> nat \<Rightarrow> 'f matrix \<Rightarrow> 'f \<Rightarrow>
   'f matrix \<Rightarrow> nat matrix \<Rightarrow> nat \<Rightarrow> nat \<Rightarrow> 'f \<times> nat" where
  "repeats_choice ar arrayA lA arrayB lB scorer scale matrix traceback i j =
     (let gapA = (if restrictA arrayA lA arrayB i j
                  then fsub ar (matrix (i - 1) j) (flit ar 1000000)
                  else if traceback (i - 1) j = 3
                  then fadd ar (matrix (i - 1) j) (fmul ar (scorer i 0) scale)
                  else fadd ar (matrix (i - 1) j) (scorer i 0));
          null1 = (if restrictA arrayA lA arrayB i j then flit ar (- 1000000) else flit ar 0);
          gapB = (if restrictB arrayA arrayB lB i j
                  then fsub ar (matrix i (j - 1)) (flit ar 1000000)
                  else if traceback i (j - 1) = 2
                  then fadd ar (matrix i (j - 1)) (fmul ar (scorer 0 j) scale)
                  else fadd ar (matrix i (j - 1)) (scorer 0 j));
          null = (if restrictB arrayA arrayB lB i j then flit ar (- 1000000) else flit ar 0);
          match = fadd ar (matrix (i - 1) (j - 1)) (scorer i j)
      in if fge ar gapA match \<and> fge ar gapA gapB \<and> fge ar gapA null then (gapA, 3)
         else if fgt ar match gapB \<and> fgt ar match null then (match, 1)
         else if fgt ar gapB null then (gapB, 2)
         else (null, 0))"

definition repeats_fill ::
  "'f arith \<Rightarrow> int list \<Rightarrow> nat \<Rightarrow> int list \<Rightarrow> nat \<Rightarrow> 'f matrix \<Rightarrow> 'f \<Rightarrow> 'f matrix \<times> nat matrix" where
  "repeats_fill ar arrayA lA arrayB lB scorer scale =
     for_cells lB lA
       (\<lambda>i j s. store i j (repeats_choice ar arrayA lA arrayB lB scorer scale (fst s) (snd s) i j) s)
       (repeats_init ar lA lB)"

text \<open>
  The scan that the walk runs at a cell with traceback 0:
  \<^verbatim>\<open>
  for(k=j-1;k>=0;k--) {
      for(l=i-1;l>=0;l--) {
          if(traceback[l][k] == 1);
          breakit = true;
          break;
      }
      if(breakit == true) { breakit = false; break; }
  }
  \<close>
  The \<^verbatim>\<open>if\<close> of the inner loop ends at its semicolon: the test is evaluated and its
  result dropped, and the two statements after it run in every pass. \<open>scan_inner\<close>
  returns \<^verbatim>\<open>l\<close> and \<^verbatim>\<open>breakit\<close> after the inner loop, \<open>scan_outer\<close> returns
  \<^verbatim>\<open>k\<close> and \<^verbatim>\<open>l\<close> after the outer one. \<^verbatim>\<open>breakit\<close> is \<^verbatim>\<open>false\<close> whenever
  the scan starts.
\<close>

definition scan_inner :: "nat matrix \<Rightarrow> int \<Rightarrow> int \<Rightarrow> int \<times> bool" where
  "scan_inner traceback i k =
     (let l = i - 1
      in if l \<ge> 0 then (let dropped = (traceback (nat l) (nat k) = 1) in (l, True))
         else (l, False))"

function scan_outer :: "nat matrix \<Rightarrow> int \<Rightarrow> int \<Rightarrow> int \<Rightarrow> int \<times> int" where
  "scan_outer traceback i k l =
     (if k \<ge> 0 then
        (case scan_inner traceback i k of
           (l', breakit) \<Rightarrow> if breakit then (k, l') else scan_outer traceback i (k - 1) l')
      else (k, l))"
  by pat_completeness auto
termination
  by (relation "measure (\<lambda>(traceback, i, k, l). nat (k + 1))") auto

declare scan_outer.simps [simp del]

text \<open>\<^verbatim>\<open>for(o=0;o<n;o++) alm[p] = alm[p] + 1;\<close>\<close>

definition add_gaps :: "int \<Rightarrow> nat \<Rightarrow> int list \<Rightarrow> int list" where
  "add_gaps n p alm = fold (\<lambda>count alm. alm[p := alm ! p + 1]) [0..<nat n] alm"

text \<open>
  The walk of \<^verbatim>\<open>_repeats\<close>. It carries \<^verbatim>\<open>sim\<close> and the variable \<^verbatim>\<open>l\<close>, which
  keeps its value between scans. After a scan the source reads \<^verbatim>\<open>matrix[l][k]\<close>
  and writes \<^verbatim>\<open>almA[k]\<close>; a negative \<^verbatim>\<open>k\<close> or \<^verbatim>\<open>l\<close> there is undefined
  behaviour, \<open>None\<close>. The source declares \<^verbatim>\<open>l\<close> without a value; the kernel starts
  the walk with 0, and the value is read only after a scan whose outer loop has run and
  assigned it (otherwise \<^verbatim>\<open>k\<close> is \<open>-1\<close>).
\<close>

function repeats_walk ::
  "'f arith \<Rightarrow> 'f matrix \<Rightarrow> nat matrix \<Rightarrow> int \<Rightarrow> int \<Rightarrow> int \<Rightarrow> 'f \<Rightarrow> int list \<Rightarrow> int list \<Rightarrow>
   ('f \<times> int list \<times> int list) option" where
  "repeats_walk ar matrix traceback i j l sim almA almB =
     (if i > 0 \<or> j > 0 then
        (if i < 0 \<or> j < 0 then None
         else if traceback (nat i) (nat j) = 3 then
           repeats_walk ar matrix traceback (i - 1) j l sim (almA[nat j := almA ! nat j + 1]) almB
         else if traceback (nat i) (nat j) = 1 then
           repeats_walk ar matrix traceback (i - 1) (j - 1) l sim almA almB
         else if traceback (nat i) (nat j) = 2 then
           repeats_walk ar matrix traceback i (j - 1) l sim almA (almB[nat i := almB ! nat i + 1])
         else
           (case scan_outer traceback i (j - 1) l of
              (k, l') \<Rightarrow>
                if k < 0 \<or> l' < 0 then None
                else
                  (let skip = (j - k) + (i - l');
                       skipA = j - k;
                       skipB = i - l';
                       almA' = add_gaps (skip - skipA) (nat (j - skipA)) almA;
                       almB' = add_gaps (skip - skipB) (nat i) almB
                   in repeats_walk ar matrix traceback l' k l'
                        (fadd ar sim (matrix (nat l') (nat k))) almA' almB')))
      else Some (sim, almA, almB))"
  by pat_completeness auto
termination
proof (relation "measure (\<lambda>(ar, matrix, traceback, i, j, l, sim, almA, almB). nat (i + j + 2))",
    goal_cases)
  case 1
  show ?case by simp
next
  case 2
  then show ?case by auto
next
  case 3
  then show ?case by auto
next
  case 4
  then show ?case by auto
next
  case (5 ar matrix traceback i j l sim almA almB k l' skip skipA skipB almA' almB')
  have scan: "scan_outer traceback i k0 l0 = (k1, l1) \<Longrightarrow> 0 \<le> k1 \<Longrightarrow> k1 \<le> k0 \<and> l1 = i - 1"
    for k0 l0 k1 l1
  proof (induction traceback i k0 l0 rule: scan_outer.induct)
    case (1 traceback i k l)
    show ?case
    proof (cases "0 \<le> i - 1")
      case True
      with "1.prems" show ?thesis
        by (simp add: scan_outer.simps [of traceback i k l] scan_inner_def split: if_splits)
    next
      case False
      with "1.prems" have "k \<ge> 0"
        by (simp add: scan_outer.simps [of traceback i k l] split: if_splits)
      with False "1.prems" have "scan_outer traceback i (k - 1) (i - 1) = (k1, l1)"
        by (simp add: scan_outer.simps [of traceback i k l] scan_inner_def)
      moreover have "scan_inner traceback i k = (i - 1, False)"
        using False by (simp add: scan_inner_def)
      ultimately have "k1 \<le> k - 1 \<and> l1 = i - 1"
        using "1.IH" [of "i - 1" False] \<open>k \<ge> 0\<close> "1.prems"(2) by simp
      then show ?thesis by simp
    qed
  qed
  from 5 have "scan_outer traceback i (j - 1) l = (k, l')" and "0 \<le> k" by auto
  from scan [OF this] 5 show ?case by auto
qed

declare repeats_walk.simps [simp del]

definition repeats_align ::
  "'f arith \<Rightarrow> int list \<Rightarrow> nat \<Rightarrow> int list \<Rightarrow> nat \<Rightarrow> 'f matrix \<Rightarrow> 'f \<Rightarrow> int list \<Rightarrow> int list \<Rightarrow>
   ('f \<times> int list \<times> int list) option" where
  "repeats_align ar arrayA lA arrayB lB scorer scale almA almB =
     (let (matrix, traceback) = repeats_fill ar arrayA lA arrayB lB scorer scale;
          sim = matrix lB lA
      in case walk_start lB lA of
           None \<Rightarrow> None
         | Some (i, j) \<Rightarrow> repeats_walk ar matrix traceback i j 0 sim almA almB)"

subsection \<open>\<^verbatim>\<open>_dialign\<close>\<close>

definition dialign_init :: "'f arith \<Rightarrow> nat \<Rightarrow> nat \<Rightarrow> 'f matrix \<times> nat matrix" where
  "dialign_init ar lA lB =
     fold (\<lambda>i (matrix, traceback). (put matrix i 0 (flit ar 0), put traceback i 0 3))
          [1..<Suc lB]
       (fold (\<lambda>i (matrix, traceback). (put matrix 0 i (flit ar 0), put traceback 0 i 2))
            [1..<Suc lA]
          (put (fresh_matrix ar) 0 0 (flit ar 0), put fresh_traceback 0 0 1))"

text \<open>
  \<^verbatim>\<open>new_score = matrix[i-k-1][j-k-1]; for(l=k;l>=0;l--) new_score += scorer[i-l][j-l];\<close>
\<close>

definition diagonal_score :: "'f arith \<Rightarrow> 'f matrix \<Rightarrow> 'f matrix \<Rightarrow> nat \<Rightarrow> nat \<Rightarrow> nat \<Rightarrow> 'f" where
  "diagonal_score ar matrix scorer i j k =
     fold (\<lambda>l new_score. fadd ar new_score (scorer (i - l) (j - l))) (rev [0..<Suc k])
       (matrix (i - k - 1) (j - k - 1))"

text \<open>The loop over the possible diagonals, returning \<^verbatim>\<open>old_score\<close> and \<^verbatim>\<open>old_length\<close>.\<close>

definition best_diagonal :: "'f arith \<Rightarrow> 'f matrix \<Rightarrow> 'f matrix \<Rightarrow> nat \<Rightarrow> nat \<Rightarrow> 'f \<times> nat" where
  "best_diagonal ar matrix scorer i j =
     (let minimum = (if i < j then i else j)
      in fold (\<lambda>k (old_score, old_length).
                 let new_score = diagonal_score ar matrix scorer i j k;
                     new_length = k + 1
                 in if fgt ar new_score old_score then (new_score, new_length)
                    else (old_score, old_length))
           [0..<minimum] (flit ar 0, 1))"

definition dialign_cell ::
  "'f arith \<Rightarrow> int list \<Rightarrow> nat \<Rightarrow> int list \<Rightarrow> nat \<Rightarrow> 'f matrix \<Rightarrow>
   nat \<Rightarrow> nat \<Rightarrow> 'f matrix \<times> nat matrix \<Rightarrow> 'f matrix \<times> nat matrix" where
  "dialign_cell ar arrayA lA arrayB lB scorer i j s =
     (let matrix = fst s; traceback = snd s;
          (old_score, old_length) = best_diagonal ar matrix scorer i j;
          scoreA = (if restrictA arrayA lA arrayB i j
                    then fsub ar (matrix (i - 1) j) (flit ar 1000000)
                    else matrix (i - 1) j);
          scoreB = (if restrictB arrayA arrayB lB i j
                    then fsub ar (matrix i (j - 1)) (flit ar 1000000)
                    else matrix i (j - 1))
      in if fge ar scoreA old_score \<and> fgt ar scoreA scoreB then
           (put matrix i j scoreA, put traceback i j 3)
         else if fgt ar old_score scoreB then
           (put matrix i j old_score,
            fold (\<lambda>k traceback. put traceback (i - k) (j - k) 1) [0..<old_length] traceback)
         else (put matrix i j scoreB, put traceback i j 2))"

definition dialign_fill ::
  "'f arith \<Rightarrow> int list \<Rightarrow> nat \<Rightarrow> int list \<Rightarrow> nat \<Rightarrow> 'f matrix \<Rightarrow> 'f \<Rightarrow> 'f matrix \<times> nat matrix" where
  "dialign_fill ar arrayA lA arrayB lB scorer scale =
     for_cells lB lA (dialign_cell ar arrayA lA arrayB lB scorer) (dialign_init ar lA lB)"

definition dialign_align ::
  "'f arith \<Rightarrow> int list \<Rightarrow> nat \<Rightarrow> int list \<Rightarrow> nat \<Rightarrow> 'f matrix \<Rightarrow> 'f \<Rightarrow> int list \<Rightarrow> int list \<Rightarrow>
   ('f \<times> int list \<times> int list) option" where
  "dialign_align ar arrayA lA arrayB lB scorer scale almA almB =
     (let (matrix, traceback) = dialign_fill ar arrayA lA arrayB lB scorer scale;
          sim = matrix lB lA
      in case walk_start lB lA of
           None \<Rightarrow> None
         | Some (i, j) \<Rightarrow>
             map_option (\<lambda>(almA', almB'). (sim, almA', almB'))
               (traceback_walk traceback i j almA almB))"

section \<open>The drivers\<close>

text \<open>
  The drivers are called from Python. A failed list index and a failed dictionary lookup
  raise \<^verbatim>\<open>IndexError\<close> and \<^verbatim>\<open>KeyError\<close>. The third outcome is a run that ends
  without a result and without an exception, as undefined behaviour of the C++ code can
  make it: an array access outside its bounds, a call through a pointer that points
  nowhere.
\<close>

datatype error = IndexError | KeyError | UndefinedBehaviour

type_synonym 'f kernel =
  "int list \<Rightarrow> nat \<Rightarrow> int list \<Rightarrow> nat \<Rightarrow> 'f matrix \<Rightarrow> 'f \<Rightarrow> int list \<Rightarrow> int list \<Rightarrow>
   ('f \<times> int list \<times> int list) option"

text \<open>
  The chain of \<^verbatim>\<open>if(mode == ...)\<close> that opens every driver. It has no final
  \<^verbatim>\<open>else\<close>: for any other string the pointer \<^verbatim>\<open>align\<close>, which the source declares
  without a value, keeps whatever it holds. That indeterminate value is the argument
  \<open>unassigned\<close> of the drivers: \<open>Some f\<close> when a call through the pointer runs \<open>f\<close>
  (the kernel that an earlier call has left in the same place, for one), \<open>None\<close> when the
  call does not come back. The source fixes nothing about it, and a statement about an
  unknown mode is a statement for every \<open>unassigned\<close>.
\<close>

definition select_align :: "'f arith \<Rightarrow> 'f kernel option \<Rightarrow> string \<Rightarrow> 'f kernel option" where
  "select_align ar unassigned mode =
     (if mode = ''global'' then Some (global_align ar)
      else if mode = ''local'' then Some (local_align ar)
      else if mode = ''repeats'' then Some (repeats_align ar)
      else if mode = ''overlap'' then Some (overlap_align ar)
      else if mode = ''dialign'' then Some (dialign_align ar)
      else unassigned)"

text \<open>A loop body that can raise: once an error is raised the rest of the loop is skipped.\<close>

definition try_step :: "('s \<Rightarrow> error + 's) \<Rightarrow> error + 's \<Rightarrow> error + 's" where
  "try_step body r = (case r of Inl e \<Rightarrow> Inl e | Inr s \<Rightarrow> body s)"

text \<open>\<^verbatim>\<open>xs[k]\<close> on a Python list, for a non-negative \<open>k\<close>.\<close>

definition item :: "'a list \<Rightarrow> nat \<Rightarrow> error + 'a" where
  "item xs k = (if k < length xs then Inr (xs ! k) else Inl IndexError)"

text \<open>
  \<^verbatim>\<open>s[k]\<close> on a \<^verbatim>\<open>std::string\<close>: the character at \<open>k\<close>, the terminating
  zero at \<open>k = size\<close>, undefined beyond.
\<close>

definition char_at :: "string \<Rightarrow> nat \<Rightarrow> char option" where
  "char_at s k = (if k < length s then Some (s ! k) else if k = length s then Some (CHR 0x00) else None)"

text \<open>The two loops that copy the gap weights into column 0 and row 0 of the scorer.\<close>

definition gap_weights ::
  "'f arith \<Rightarrow> 'f list \<Rightarrow> 'f list \<Rightarrow> nat \<Rightarrow> nat \<Rightarrow> error + 'f matrix" where
  "gap_weights ar wghA wghB lA lB =
     fold (\<lambda>k. try_step (\<lambda>scorer.
               case item wghA (k - 1) of Inl e \<Rightarrow> Inl e | Inr w \<Rightarrow> Inr (put scorer 0 k w)))
          [1..<Suc lA]
       (fold (\<lambda>k. try_step (\<lambda>scorer.
                 case item wghB (k - 1) of Inl e \<Rightarrow> Inl e | Inr w \<Rightarrow> Inr (put scorer k 0 w)))
            [1..<Suc lB]
          (Inr (put (fresh_matrix ar) 0 0 (flit ar 0))))"

text \<open>
  The body of the loop that fills in the scores for matchings, given the looked-up entry
  of \<^verbatim>\<open>score_dict\<close>.
\<close>

definition sonority ::
  "'f arith \<Rightarrow> string \<Rightarrow> string \<Rightarrow> 'f \<Rightarrow> nat \<Rightarrow> nat \<Rightarrow> 'f option \<Rightarrow> 'f matrix \<Rightarrow>
   error + 'f matrix" where
  "sonority ar prsA prsB sonority_factor k l entry scorer =
     (case entry of
        None \<Rightarrow> Inl KeyError
      | Some score \<Rightarrow>
          (case (char_at prsA (l - 1), char_at prsB (k - 1)) of
             (Some a, Some b) \<Rightarrow>
               Inr (put scorer k l (if a = b then fbonus ar score sonority_factor else score))
           | _ \<Rightarrow> Inl UndefinedBehaviour))"

text \<open>
  The scorer as \<^verbatim>\<open>align_pairwise\<close>, \<^verbatim>\<open>align_sequence_pairs\<close> and
  \<^verbatim>\<open>random_align_sequence_pairs\<close> build it:
  \<^verbatim>\<open>score_dict[make_tuple(seqA[l-1],seqB[k-1])]\<close>.
\<close>

definition scorer_AB ::
  "'f arith \<Rightarrow> string list \<Rightarrow> string list \<Rightarrow> 'f list \<Rightarrow> 'f list \<Rightarrow> string \<Rightarrow> string \<Rightarrow>
   (string \<times> string \<rightharpoonup> 'f) \<Rightarrow> 'f \<Rightarrow> error + 'f matrix" where
  "scorer_AB ar seqA seqB wghA wghB prsA prsB score_dict sonority_factor =
     (let lA = length seqA; lB = length seqB
      in for_cells lB lA
           (\<lambda>k l. try_step (sonority ar prsA prsB sonority_factor k l
                               (score_dict (seqA ! (l - 1), seqB ! (k - 1)))))
           (gap_weights ar wghA wghB lA lB))"

text \<open>
  The scorer as \<^verbatim>\<open>align_sequences_pairwise\<close> builds it:
  \<^verbatim>\<open>score_dict[make_tuple(seqB[k-1],seqA[l-1])]\<close>.
\<close>

definition scorer_BA ::
  "'f arith \<Rightarrow> string list \<Rightarrow> string list \<Rightarrow> 'f list \<Rightarrow> 'f list \<Rightarrow> string \<Rightarrow> string \<Rightarrow>
   (string \<times> string \<rightharpoonup> 'f) \<Rightarrow> 'f \<Rightarrow> error + 'f matrix" where
  "scorer_BA ar seqA seqB wghA wghB prsA prsB score_dict sonority_factor =
     (let lA = length seqA; lB = length seqB
      in for_cells lB lA
           (\<lambda>k l. try_step (sonority ar prsA prsB sonority_factor k l
                               (score_dict (seqB ! (k - 1), seqA ! (l - 1)))))
           (gap_weights ar wghA wghB lA lB))"

text \<open>\<^verbatim>\<open>for(k=0;k<lA;k++) arrayA[k] = extract<int>(resA[k]);\<close>\<close>

definition restrictions_array :: "int list \<Rightarrow> nat \<Rightarrow> error + int list" where
  "restrictions_array res n =
     fold (\<lambda>k. try_step (\<lambda>array.
               case item res k of Inl e \<Rightarrow> Inl e | Inr r \<Rightarrow> Inr (array @ [r])))
          [0..<n] (Inr [])"

subsection \<open>Retrieving the alignment\<close>

text \<open>
  \<^verbatim>\<open>out.insert(k, "-")\<close> on a Python list (an index beyond the end appends), and
  the loop that repeats it \<open>n\<close> times.
\<close>

definition list_insert :: "nat \<Rightarrow> 'a \<Rightarrow> 'a list \<Rightarrow> 'a list" where
  "list_insert k x xs = take k xs @ [x] @ drop k xs"

definition insert_gaps :: "int \<Rightarrow> nat \<Rightarrow> string list \<Rightarrow> string list" where
  "insert_gaps n k out = fold (\<lambda>l. list_insert k ''-'') [0..<nat n] out"

definition retrieve_step :: "int list \<Rightarrow> nat \<Rightarrow> string list \<Rightarrow> error + string list" where
  "retrieve_step alm k out =
     (if alm ! k > 0 then Inr (insert_gaps (alm ! k) k out)
      else if alm ! k < 0 then
        (if k < length out then Inr (out[k := ''*'']) else Inl IndexError)
      else Inr out)"

text \<open>\<^verbatim>\<open>for(k=lA;k>=0;k--)\<close> over the gap-count vector.\<close>

definition retrieve :: "int list \<Rightarrow> nat \<Rightarrow> string list \<Rightarrow> error + string list" where
  "retrieve alm n out = fold (\<lambda>k. try_step (retrieve_step alm k)) (rev [0..<Suc n]) (Inr out)"

text \<open>
  Sequencing of two steps of a driver, the first of which can raise: the second runs on
  the value of the first unless that raised.
\<close>

definition and_then :: "error + 'a \<Rightarrow> ('a \<Rightarrow> error + 'b) \<Rightarrow> error + 'b" where
  "and_then r f = (case r of Inl e \<Rightarrow> Inl e | Inr x \<Rightarrow> f x)"

text \<open>
  The call \<^verbatim>\<open>sim = align(arrayA, lA, arrayB, lB, scorer, scale, almA, almB)\<close> with the
  zeroed gap-count vectors. The call through a pointer that points nowhere, and a kernel
  that leaves its arrays, end the run.
\<close>

definition call_align ::
  "'f kernel option \<Rightarrow> int list \<Rightarrow> nat \<Rightarrow> int list \<Rightarrow> nat \<Rightarrow> 'f matrix \<Rightarrow> 'f \<Rightarrow>
   error + ('f \<times> int list \<times> int list)" where
  "call_align align arrayA lA arrayB lB scorer scale =
     (case align of
        None \<Rightarrow> Inl UndefinedBehaviour
      | Some f \<Rightarrow>
          (case f arrayA lA arrayB lB scorer scale (replicate (lA + 1) 0) (replicate (lB + 1) 0) of
             None \<Rightarrow> Inl UndefinedBehaviour
           | Some r \<Rightarrow> Inr r))"

text \<open>
  Everything a driver does with one pair once the scorer is built: the restriction
  arrays, the gap-count vectors, the call through \<^verbatim>\<open>align\<close> and the retrieval of the
  two output lists. The source repeats this block in each driver.
\<close>

definition align_with ::
  "'f kernel option \<Rightarrow> string list \<Rightarrow> string list \<Rightarrow> int list \<Rightarrow> int list \<Rightarrow> 'f matrix \<Rightarrow> 'f \<Rightarrow>
   error + (string list \<times> string list \<times> 'f)" where
  "align_with align seqA seqB resA resB scorer scale =
     (let lA = length seqA; lB = length seqB; outA = seqA; outB = seqB
      in and_then (restrictions_array resA lA) (\<lambda>arrayA.
         and_then (restrictions_array resB lB) (\<lambda>arrayB.
         and_then (call_align align arrayA lA arrayB lB scorer scale) (\<lambda>(sim, almA, almB).
         and_then (retrieve almA lA outA) (\<lambda>outA'.
         and_then (retrieve almB lB outB) (\<lambda>outB'.
         Inr (outA', outB', sim)))))))"

definition align_pairwise ::
  "'f arith \<Rightarrow> 'f kernel option \<Rightarrow>
   string list \<Rightarrow> string list \<Rightarrow> 'f list \<Rightarrow> 'f list \<Rightarrow> int list \<Rightarrow> int list \<Rightarrow>
   string \<Rightarrow> string \<Rightarrow> (string \<times> string \<rightharpoonup> 'f) \<Rightarrow> 'f \<Rightarrow> 'f \<Rightarrow> string \<Rightarrow>
   error + (string list \<times> string list \<times> 'f)" where
  "align_pairwise ar unassigned seqA seqB wghA wghB resA resB prsA prsB score_dict scale
     sonority_factor mode =
     (let align = select_align ar unassigned mode
      in and_then (scorer_AB ar seqA seqB wghA wghB prsA prsB score_dict sonority_factor) (\<lambda>scorer.
         align_with align seqA seqB resA resB scorer scale))"

text \<open>
  \<^verbatim>\<open>align_sequences_pairwise\<close>: the pairs \<open>i < j\<close> in the order of the two nested
  loops, each aligned and appended to \<^verbatim>\<open>alignments\<close>.
\<close>

definition align_sequences_pairwise ::
  "'f arith \<Rightarrow> 'f kernel option \<Rightarrow>
   string list list \<Rightarrow> 'f list list \<Rightarrow> int list list \<Rightarrow> string list \<Rightarrow>
   (string \<times> string \<rightharpoonup> 'f) \<Rightarrow> 'f \<Rightarrow> 'f \<Rightarrow> string \<Rightarrow>
   error + (string list \<times> string list \<times> 'f) list" where
  "align_sequences_pairwise ar unassigned seqs weights restrictions prosodics score_dict scale
     sonority_factor mode =
     (let lS = length seqs; align = select_align ar unassigned mode
      in fold (\<lambda>i. fold (\<lambda>j. try_step (\<lambda>alignments.
                 if i < j then
                   and_then (item seqs i) (\<lambda>seqA.
                   and_then (item seqs j) (\<lambda>seqB.
                   and_then (item weights i) (\<lambda>wghA.
                   and_then (item weights j) (\<lambda>wghB.
                   and_then (item restrictions i) (\<lambda>resA.
                   and_then (item restrictions j) (\<lambda>resB.
                   and_then (item prosodics i) (\<lambda>prsA.
                   and_then (item prosodics j) (\<lambda>prsB.
                   and_then (scorer_BA ar seqA seqB wghA wghB prsA prsB score_dict sonority_factor)
                     (\<lambda>scorer.
                   and_then (align_with align seqA seqB resA resB scorer scale) (\<lambda>t.
                   Inr (alignments @ [t])))))))))))
                 else Inr alignments)) [0..<lS]) [0..<lS] (Inr []))"

text \<open>
  \<^verbatim>\<open>align_sequence_pairs\<close>: every argument is a list with one two-element entry per
  pair.
\<close>

definition align_sequence_pairs ::
  "'f arith \<Rightarrow> 'f kernel option \<Rightarrow>
   (string list \<times> string list) list \<Rightarrow> ('f list \<times> 'f list) list \<Rightarrow>
   (int list \<times> int list) list \<Rightarrow> (string \<times> string) list \<Rightarrow>
   (string \<times> string \<rightharpoonup> 'f) \<Rightarrow> 'f \<Rightarrow> 'f \<Rightarrow> string \<Rightarrow>
   error + (string list \<times> string list \<times> 'f) list" where
  "align_sequence_pairs ar unassigned seqs weights restrictions prosodics score_dict scale
     sonority_factor mode =
     (let lS = length seqs; align = select_align ar unassigned mode
      in fold (\<lambda>i. try_step (\<lambda>alignments.
                 and_then (item seqs i) (\<lambda>(seqA, seqB).
                 and_then (item weights i) (\<lambda>(wghA, wghB).
                 and_then (item restrictions i) (\<lambda>(resA, resB).
                 and_then (item prosodics i) (\<lambda>(prsA, prsB).
                 and_then (scorer_AB ar seqA seqB wghA wghB prsA prsB score_dict sonority_factor)
                   (\<lambda>scorer.
                 and_then (align_with align seqA seqB resA resB scorer scale) (\<lambda>t.
                 Inr (alignments @ [t]))))))))) [0..<lS] (Inr []))"

section \<open>\<^verbatim>\<open>edit_dist\<close>\<close>

definition edit_init :: "nat \<Rightarrow> nat \<Rightarrow> int matrix" where
  "edit_init m n =
     fold (\<lambda>i matrix. put matrix i 0 (int i)) [1..<Suc n]
       (fold (\<lambda>j matrix. put matrix 0 j (int j)) [1..<Suc m] (put (\<lambda>_ _. 0) 0 0 0))"

definition edit_min :: "'a list \<Rightarrow> 'a list \<Rightarrow> int matrix \<Rightarrow> nat \<Rightarrow> nat \<Rightarrow> int" where
  "edit_min seqA seqB matrix i j =
     (let penalty = (if seqA ! (j - 1) = seqB ! (i - 1) then 0 else 1);
          gapA = matrix (i - 1) j + 1;
          match = matrix (i - 1) (j - 1) + penalty;
          gapB = matrix i (j - 1) + 1
      in if gapA \<le> match \<and> gapA \<le> gapB then gapA
         else if match < gapB then match
         else gapB)"

definition edit_matrix :: "'a list \<Rightarrow> 'a list \<Rightarrow> int matrix" where
  "edit_matrix seqA seqB =
     (let m = length seqA; n = length seqB
      in for_cells n m (\<lambda>i j matrix. put matrix i j (edit_min seqA seqB matrix i j))
           (edit_init m n))"

text \<open>
  \<^verbatim>\<open>dist = (matrix[n][m] * 1.0) / (std::max(n,m) * 1.0)\<close>. For two empty lists the
  quotient is \<open>0.0 / 0.0\<close>, which is not a number: \<open>None\<close>.
\<close>

definition edit_dist :: "'a list \<Rightarrow> 'a list \<Rightarrow> real option" where
  "edit_dist seqA seqB =
     (let m = length seqA; n = length seqB; matrix = edit_matrix seqA seqB
      in if max n m = 0 then None
         else Some (real_of_int (matrix n m) / real (max n m)))"

section \<open>Auxiliary notions for the proofs\<close>

text \<open>
  \<open>before i j i' j'\<close>: the double loop reaches the cell \<open>(i', j')\<close> before the cell
  \<open>(i, j)\<close>.
\<close>

definition before :: "nat \<Rightarrow> nat \<Rightarrow> nat \<Rightarrow> nat \<Rightarrow> bool" where
  "before i j i' j' \<longleftrightarrow> i' < i \<or> (i' = i \<and> j' < j)"

text \<open>The two arrays of a kernel seen as one array of pairs (value, direction).\<close>

definition cells :: "'a matrix \<times> 'b matrix \<Rightarrow> ('a \<times> 'b) matrix" where
  "cells s = (\<lambda>i j. (fst s i j, snd s i j))"



text \<open>
  A valid input of \<^verbatim>\<open>align_pairwise\<close>: two non-empty sequences, weight, restriction
  and prosodic vectors of matching lengths, and a similarity mapping that is defined on
  every pair of symbols of the two sequences.
\<close>

definition valid_input ::
  "string list \<Rightarrow> string list \<Rightarrow> 'f list \<Rightarrow> 'f list \<Rightarrow> int list \<Rightarrow> int list \<Rightarrow>
   string \<Rightarrow> string \<Rightarrow> (string \<times> string \<rightharpoonup> 'f) \<Rightarrow> bool" where
  "valid_input seqA seqB wghA wghB resA resB prsA prsB score_dict \<longleftrightarrow>
     1 \<le> length seqA \<and> 1 \<le> length seqB \<and>
     length wghA = length seqA \<and> length wghB = length seqB \<and>
     length resA = length seqA \<and> length resB = length seqB \<and>
     length prsA = length seqA \<and> length prsB = length seqB \<and>
     (\<forall>a \<in> set seqA. \<forall>b \<in> set seqB. score_dict (a, b) \<noteq> None)"

text \<open>The border that the walks rely on: direction 2 on row 0, direction 3 on column 0.\<close>

definition border :: "nat \<Rightarrow> nat \<Rightarrow> nat matrix \<Rightarrow> bool" where
  "border lA lB traceback \<longleftrightarrow>
     (\<forall>j. 1 \<le> j \<and> j \<le> lA \<longrightarrow> traceback 0 j = 2) \<and>
     (\<forall>i. 1 \<le> i \<and> i \<le> lB \<longrightarrow> traceback i 0 = 3)"

text \<open>The state of a walk: the gap counts so far are non-negative and fit the arrays.\<close>

definition counts_ok :: "nat \<Rightarrow> nat \<Rightarrow> int list \<Rightarrow> int list \<Rightarrow> bool" where
  "counts_ok lA lB almA almB \<longleftrightarrow>
     length almA = lA + 1 \<and> length almB = lB + 1 \<and>
     (\<forall>x \<in> set almA. 0 \<le> x) \<and> (\<forall>x \<in> set almB. 0 \<le> x)"

text \<open>What a kernel has to deliver for the two output lists to have the same length.\<close>

definition balanced :: "nat \<Rightarrow> nat \<Rightarrow> ('f \<times> int list \<times> int list) option \<Rightarrow> bool" where
  "balanced lA lB r \<longleftrightarrow>
     (\<exists>sim almA almB. r = Some (sim, almA, almB) \<and>
        length almA = lA + 1 \<and> length almB = lB + 1 \<and>
        (\<forall>x \<in> set almA. 0 \<le> x) \<and> (\<forall>x \<in> set almB. 0 \<le> x) \<and>
        int lA + sum_list almA = int lB + sum_list almB)"

text \<open>Inputs used to instantiate the theorems below.\<close>

definition sc0 :: "real matrix" where
  "sc0 = (\<lambda>i j. if i = 1 \<and> j = 1 then 1 else - 1)"

text \<open>
  A scorer for sequences of lengths 3 and 1: the gap weights \<open>-1\<close> in row 0 and \<open>-2\<close> in
  column 0, every matching \<open>-4\<close>.
\<close>

definition sc_ext :: "real matrix" where
  "sc_ext = (\<lambda>i j. if i = 0 \<and> j = 0 then 0 else if i = 0 then - 1 else if j = 0 then - 2 else - 4)"

definition ident :: "string \<times> string \<rightharpoonup> real" where
  "ident = (\<lambda>(s, t). Some (if s = t then 1 else - 1))"

text \<open>
  The scorer of the sequences \<open>[a, b]\<close> and \<open>[c]\<close> under \<open>ident\<close> with all gap
  weights \<open>-1\<close>; a similarity mapping with its keys swapped; a similarity mapping that is
  not symmetric.
\<close>

definition sc_gaps :: "real matrix" where
  "sc_gaps = (\<lambda>i j. if i = 0 \<and> j = 0 then 0 else - 1)"

definition swapped :: "(string \<times> string \<rightharpoonup> 'f) \<Rightarrow> (string \<times> string \<rightharpoonup> 'f)" where
  "swapped score_dict = (\<lambda>(a, b). score_dict (b, a))"

definition asym :: "string \<times> string \<rightharpoonup> real" where
  "asym = (\<lambda>(s, t). Some (if s = ''a'' then 1 else - 3))"

text \<open>Similarity mappings and a scorer for the inputs on which the restrictions are tried.\<close>

definition tens :: "string \<times> string \<rightharpoonup> real" where
  "tens = (\<lambda>(s, t). Some (if s = t then 10 else - 10))"







section \<open>The double loop\<close>

lemma put_apply: "put m i j v i' j' = (if i' = i \<and> j' = j then v else m i' j')"
  by (simp add: put_def)

lemma fold_upt_rule:
  assumes "P a s"
    and "\<And>k s. a \<le> k \<Longrightarrow> k < b \<Longrightarrow> P k s \<Longrightarrow> P (Suc k) (f k s)"
    and "a \<le> b"
  shows "P b (fold f [a..<b] s)"
  using assms(3,2)
proof (induction b)
  case 0
  with assms(1) show ?case by simp
next
  case (Suc b)
  show ?case
  proof (cases "a \<le> b")
    case True
    then have "P b (fold f [a..<b] s)"
      using Suc.IH Suc.prems(2) by simp
    then have "P (Suc b) (f b (fold f [a..<b] s))"
      using Suc.prems(2) True by simp
    with True show ?thesis by simp
  next
    case False
    with Suc.prems(1) have "a = Suc b" by simp
    with assms(1) show ?thesis by simp
  qed
qed

lemma for_cells_rule:
  assumes init: "Q 1 1 s"
    and step: "\<And>i j s. 1 \<le> i \<Longrightarrow> i \<le> lB \<Longrightarrow> 1 \<le> j \<Longrightarrow> j \<le> lA \<Longrightarrow> Q i j s \<Longrightarrow> Q i (Suc j) (body i j s)"
    and row: "\<And>i s. 1 \<le> i \<Longrightarrow> i \<le> lB \<Longrightarrow> Q i (Suc lA) s \<Longrightarrow> Q (Suc i) 1 s"
  shows "Q (Suc lB) 1 (for_cells lB lA body s)"
  unfolding for_cells_def
proof (rule fold_upt_rule [where P = "\<lambda>i. Q i 1"])
  show "Q 1 1 s" by (rule init)
  show "1 \<le> Suc lB" by simp
  fix i s
  assume i: "1 \<le> i" "i < Suc lB" and q: "Q i 1 s"
  have "Q i (Suc lA) (fold (body i) [1..<Suc lA] s)"
  proof (rule fold_upt_rule [where P = "Q i"])
    show "Q i 1 s" by (rule q)
    show "1 \<le> Suc lA" by simp
    fix j s
    assume "1 \<le> j" "j < Suc lA" "Q i j s"
    with i show "Q i (Suc j) (body i j s)" by (simp add: step)
  qed
  then show "Q (Suc i) 1 (fold (body i) [1..<Suc lA] s)"
    using i by (intro row) auto
qed

lemma fill_cells:
  fixes view :: "'s \<Rightarrow> 'c matrix" and rule :: "'c matrix \<Rightarrow> nat \<Rightarrow> nat \<Rightarrow> 'c"
  assumes body: "\<And>i j s. view (body i j s) = put (view s) i j (rule (view s) i j)"
    and loc: "\<And>m m' i j. 1 \<le> i \<Longrightarrow> 1 \<le> j \<Longrightarrow> (\<And>i' j'. before i j i' j' \<Longrightarrow> m i' j' = m' i' j')
                \<Longrightarrow> rule m i j = rule m' i j"
  shows "(\<forall>i j. 1 \<le> i \<and> i \<le> lB \<and> 1 \<le> j \<and> j \<le> lA \<longrightarrow>
            view (for_cells lB lA body s) i j = rule (view (for_cells lB lA body s)) i j) \<and>
         (\<forall>i j. \<not> (1 \<le> i \<and> i \<le> lB \<and> 1 \<le> j \<and> j \<le> lA) \<longrightarrow>
            view (for_cells lB lA body s) i j = view s i j)"
proof -
  define seen where "seen i j i' j' \<longleftrightarrow> 1 \<le> i' \<and> i' \<le> lB \<and> 1 \<le> j' \<and> j' \<le> lA \<and> before i j i' j'"
    for i j i' j'
  define Q where "Q i j t \<longleftrightarrow>
      (\<forall>i' j'. seen i j i' j' \<longrightarrow> view t i' j' = rule (view t) i' j') \<and>
      (\<forall>i' j'. \<not> seen i j i' j' \<longrightarrow> view t i' j' = view s i' j')" for i j t
  have "Q (Suc lB) 1 (for_cells lB lA body s)"
  proof (rule for_cells_rule)
    show "Q 1 1 s"
      by (auto simp: Q_def seen_def before_def)
  next
    fix i t
    assume "1 \<le> i" "i \<le> lB" "Q i (Suc lA) t"
    moreover have "seen (Suc i) 1 i' j' = seen i (Suc lA) i' j'" for i' j'
      by (auto simp: seen_def before_def)
    ultimately show "Q (Suc i) 1 t"
      by (simp add: Q_def)
  next
    fix i j t
    assume ij: "1 \<le> i" "i \<le> lB" "1 \<le> j" "j \<le> lA" and q: "Q i j t"
    let ?t' = "body i j t"
    have v: "view ?t' = put (view t) i j (rule (view t) i j)" by (rule body)
    have same: "rule (view ?t') i' j' = rule (view t) i' j'"
      if "1 \<le> i'" "1 \<le> j'" "i' < i \<or> (i' = i \<and> j' \<le> j)" for i' j'
    proof (rule loc)
      fix a b
      assume "before i' j' a b"
      with that have "\<not> (a = i \<and> b = j)" by (auto simp: before_def)
      then show "view ?t' a b = view t a b" by (auto simp: v put_apply)
    qed (use that in auto)
    show "Q i (Suc j) ?t'"
      unfolding Q_def
    proof (intro conjI allI impI)
      fix i' j'
      assume d: "seen i (Suc j) i' j'"
      show "view ?t' i' j' = rule (view ?t') i' j'"
      proof (cases "i' = i \<and> j' = j")
        case True
        with ij same [of i j] show ?thesis by (simp add: v put_apply)
      next
        case False
        with d have d': "seen i j i' j'" by (auto simp: seen_def before_def)
        with q have "view t i' j' = rule (view t) i' j'" by (simp add: Q_def)
        moreover from d' have "rule (view ?t') i' j' = rule (view t) i' j'"
          by (intro same) (auto simp: seen_def before_def)
        ultimately show ?thesis using False by (simp add: v put_apply)
      qed
    next
      fix i' j'
      assume nd: "\<not> seen i (Suc j) i' j'"
      with ij have "\<not> (i' = i \<and> j' = j)" and "\<not> seen i j i' j'"
        by (auto simp: seen_def before_def)
      with q show "view ?t' i' j' = view s i' j'"
        by (auto simp: v put_apply Q_def)
    qed
  qed
  moreover have "seen (Suc lB) 1 i' j' \<longleftrightarrow> 1 \<le> i' \<and> i' \<le> lB \<and> 1 \<le> j' \<and> j' \<le> lA" for i' j'
    by (auto simp: seen_def before_def)
  ultimately show ?thesis by (simp add: Q_def)
qed

lemma fst_cells: "(\<lambda>i j. fst (cells s i j)) = fst s"
  by (simp add: cells_def)

lemma snd_cells: "(\<lambda>i j. snd (cells s i j)) = snd s"
  by (simp add: cells_def)

lemma cells_store: "cells (store i j c s) = put (cells s) i j c"
  by (intro ext) (simp add: cells_def store_def put_apply)

lemma before_neighbours:
  "1 \<le> i \<Longrightarrow> before i j (i - 1) j"
  "1 \<le> j \<Longrightarrow> before i j i (j - 1)"
  "1 \<le> i \<Longrightarrow> before i j (i - 1) (j - 1)"
  by (auto simp: before_def)

lemma pair_fill_cells:
  fixes choice :: "'f matrix \<Rightarrow> nat matrix \<Rightarrow> nat \<Rightarrow> nat \<Rightarrow> 'f \<times> nat"
  assumes loc: "\<And>m m' i j. 1 \<le> i \<Longrightarrow> 1 \<le> j \<Longrightarrow> (\<And>i' j'. before i j i' j' \<Longrightarrow> m i' j' = m' i' j')
      \<Longrightarrow> choice (\<lambda>i j. fst (m i j)) (\<lambda>i j. snd (m i j)) i j =
          choice (\<lambda>i j. fst (m' i j)) (\<lambda>i j. snd (m' i j)) i j"
  shows "(\<forall>i j. 1 \<le> i \<and> i \<le> lB \<and> 1 \<le> j \<and> j \<le> lA \<longrightarrow>
            cells (for_cells lB lA (\<lambda>i j s. store i j (choice (fst s) (snd s) i j) s) s0) i j =
            choice (fst (for_cells lB lA (\<lambda>i j s. store i j (choice (fst s) (snd s) i j) s) s0))
                   (snd (for_cells lB lA (\<lambda>i j s. store i j (choice (fst s) (snd s) i j) s) s0)) i j) \<and>
         (\<forall>i j. \<not> (1 \<le> i \<and> i \<le> lB \<and> 1 \<le> j \<and> j \<le> lA) \<longrightarrow>
            cells (for_cells lB lA (\<lambda>i j s. store i j (choice (fst s) (snd s) i j) s) s0) i j =
            cells s0 i j)"
proof -
  define rule where "rule = (\<lambda>m :: ('f \<times> nat) matrix.
      choice (\<lambda>i j. fst (m i j)) (\<lambda>i j. snd (m i j)))"
  define body where "body = (\<lambda>i j s. store i j (choice (fst s) (snd s) i j) s)"
  have "(\<forall>i j. 1 \<le> i \<and> i \<le> lB \<and> 1 \<le> j \<and> j \<le> lA \<longrightarrow>
            cells (for_cells lB lA body s0) i j = rule (cells (for_cells lB lA body s0)) i j) \<and>
         (\<forall>i j. \<not> (1 \<le> i \<and> i \<le> lB \<and> 1 \<le> j \<and> j \<le> lA) \<longrightarrow>
            cells (for_cells lB lA body s0) i j = cells s0 i j)"
  proof (rule fill_cells)
    show "cells (body i j s) = put (cells s) i j (rule (cells s) i j)" for i j s
      by (simp only: body_def rule_def cells_store fst_cells snd_cells)
    show "rule m i j = rule m' i j"
      if "1 \<le> i" "1 \<le> j" "\<And>i' j'. before i j i' j' \<Longrightarrow> m i' j' = m' i' j'" for m m' i j
      unfolding rule_def using that by (rule loc)
  qed
  then show ?thesis
    by (simp only: rule_def body_def fst_cells snd_cells)
qed

lemma fold_put_column:
  "fold (\<lambda>i matrix. put matrix i 0 (f i)) [a..<b] m i' j' =
     (if j' = 0 \<and> a \<le> i' \<and> i' < b then f i' else m i' j')"
  by (induction b) (auto simp: put_apply)

lemma fold_put_row:
  "fold (\<lambda>j matrix. put matrix 0 j (f j)) [a..<b] m i' j' =
     (if i' = 0 \<and> a \<le> j' \<and> j' < b then f j' else m i' j')"
  by (induction b) (auto simp: put_apply)

section \<open>The recurrence of the global kernel\<close>

lemma global_choice_local:
  assumes "1 \<le> i" "1 \<le> j" "\<And>i' j'. before i j i' j' \<Longrightarrow> m i' j' = m' i' j'"
  shows "global_choice ar arrayA lA arrayB lB scorer scale (\<lambda>i j. fst (m i j)) (\<lambda>i j. snd (m i j)) i j =
         global_choice ar arrayA lA arrayB lB scorer scale (\<lambda>i j. fst (m' i j)) (\<lambda>i j. snd (m' i j)) i j"
proof -
  note n = assms(3) [OF before_neighbours(1) [OF assms(1)]]
    assms(3) [OF before_neighbours(2) [OF assms(2)]]
    assms(3) [OF before_neighbours(3) [OF assms(1)]]
  show ?thesis by (simp only: global_choice_def n)
qed

lemma global_fill_cells:
  "(\<forall>i j. 1 \<le> i \<and> i \<le> lB \<and> 1 \<le> j \<and> j \<le> lA \<longrightarrow>
      cells (global_fill ar arrayA lA arrayB lB scorer scale) i j =
      global_choice ar arrayA lA arrayB lB scorer scale
        (fst (global_fill ar arrayA lA arrayB lB scorer scale))
        (snd (global_fill ar arrayA lA arrayB lB scorer scale)) i j) \<and>
   (\<forall>i j. \<not> (1 \<le> i \<and> i \<le> lB \<and> 1 \<le> j \<and> j \<le> lA) \<longrightarrow>
      cells (global_fill ar arrayA lA arrayB lB scorer scale) i j =
      cells (global_init ar lA lB scorer scale) i j)"
  unfolding global_fill_def by (rule pair_fill_cells) (rule global_choice_local)

text \<open>
  Claim C5. In the global kernel, once the matrices are filled, every cell \<open>(i, j)\<close> with
  \<open>1 \<le> i \<le> lB\<close> and \<open>1 \<le> j \<le> lA\<close> holds exactly the value and the direction that
  the three candidates give: \<open>gapA\<close> is \<open>matrix[i-1][j] - 1000000\<close> under the
  restriction on A, else \<open>matrix[i-1][j] + S[i][0] * scale\<close> when the cell above has
  direction 3, else \<open>matrix[i-1][j] + S[i][0]\<close>; \<open>gapB\<close> likewise with the
  restriction on B, \<open>S[0][j]\<close> and direction 2 of the cell to the left; \<open>match\<close> is
  \<open>matrix[i-1][j-1] + S[i][j]\<close>. The cell takes \<open>gapA\<close> and direction 3 iff
  \<open>gapA > match\<close> and \<open>gapA \<ge> gapB\<close>, else \<open>match\<close> and direction 1 iff
  \<open>match \<ge> gapB\<close>, else \<open>gapB\<close> and direction 2. Sums, differences, products and
  comparisons are those of the arithmetic \<open>ar\<close>, each sum, difference and product one
  operation on \<^verbatim>\<open>float\<close>: the statement holds for every arithmetic, the rounding one of
  the compiled code among them.
\<close>

theorem global_recurrence:
  assumes "1 \<le> i" "i \<le> lB" "1 \<le> j" "j \<le> lA"
  shows "let matrix = fst (global_fill ar arrayA lA arrayB lB scorer scale);
             traceback = snd (global_fill ar arrayA lA arrayB lB scorer scale);
             gapA = (if arrayB ! (i - 1) < 0 \<and> arrayA ! (j - 1) > 0 \<and> j \<noteq> lA
                     then fsub ar (matrix (i - 1) j) (flit ar 1000000)
                     else if traceback (i - 1) j = 3 then fadd ar (matrix (i - 1) j) (fmul ar (scorer i 0) scale)
                     else fadd ar (matrix (i - 1) j) (scorer i 0));
             gapB = (if arrayA ! (j - 1) < 0 \<and> arrayB ! (i - 1) > 0 \<and> i \<noteq> lB
                     then fsub ar (matrix i (j - 1)) (flit ar 1000000)
                     else if traceback i (j - 1) = 2 then fadd ar (matrix i (j - 1)) (fmul ar (scorer 0 j) scale)
                     else fadd ar (matrix i (j - 1)) (scorer 0 j));
             match = fadd ar (matrix (i - 1) (j - 1)) (scorer i j)
         in (matrix i j, traceback i j) =
              (if fgt ar gapA match \<and> fge ar gapA gapB then (gapA, 3)
               else if fge ar match gapB then (match, 1)
               else (gapB, 2)) \<and>
            (traceback i j = 3 \<longleftrightarrow> fgt ar gapA match \<and> fge ar gapA gapB) \<and>
            (traceback i j = 1 \<longleftrightarrow> \<not> (fgt ar gapA match \<and> fge ar gapA gapB) \<and> fge ar match gapB) \<and>
            (traceback i j = 2 \<longleftrightarrow> \<not> (fgt ar gapA match \<and> fge ar gapA gapB) \<and> \<not> fge ar match gapB)"
proof -
  let ?s = "global_fill ar arrayA lA arrayB lB scorer scale"
  define gapA where "gapA =
     (if arrayB ! (i - 1) < 0 \<and> arrayA ! (j - 1) > 0 \<and> j \<noteq> lA
      then fsub ar (fst ?s (i - 1) j) (flit ar 1000000)
      else if snd ?s (i - 1) j = 3 then fadd ar (fst ?s (i - 1) j) (fmul ar (scorer i 0) scale)
      else fadd ar (fst ?s (i - 1) j) (scorer i 0))"
  define gapB where "gapB =
     (if arrayA ! (j - 1) < 0 \<and> arrayB ! (i - 1) > 0 \<and> i \<noteq> lB
      then fsub ar (fst ?s i (j - 1)) (flit ar 1000000)
      else if snd ?s i (j - 1) = 2 then fadd ar (fst ?s i (j - 1)) (fmul ar (scorer 0 j) scale)
      else fadd ar (fst ?s i (j - 1)) (scorer 0 j))"
  define match where "match = fadd ar (fst ?s (i - 1) (j - 1)) (scorer i j)"
  from assms global_fill_cells [of lB lA ar arrayA arrayB scorer scale]
  have "cells ?s i j = global_choice ar arrayA lA arrayB lB scorer scale (fst ?s) (snd ?s) i j"
    by blast
  then have eq: "(fst ?s i j, snd ?s i j) =
      (if fgt ar gapA match \<and> fge ar gapA gapB then (gapA, 3)
       else if fge ar match gapB then (match, 1)
       else (gapB, 2))"
    by (simp only: cells_def global_choice_def restrictA_def restrictB_def Let_def
        gapA_def gapB_def match_def)
  have "(fst ?s i j, snd ?s i j) =
          (if fgt ar gapA match \<and> fge ar gapA gapB then (gapA, 3)
           else if fge ar match gapB then (match, 1)
           else (gapB, 2)) \<and>
        (snd ?s i j = 3 \<longleftrightarrow> fgt ar gapA match \<and> fge ar gapA gapB) \<and>
        (snd ?s i j = 1 \<longleftrightarrow> \<not> (fgt ar gapA match \<and> fge ar gapA gapB) \<and> fge ar match gapB) \<and>
        (snd ?s i j = 2 \<longleftrightarrow> \<not> (fgt ar gapA match \<and> fge ar gapA gapB) \<and> \<not> fge ar match gapB)"
  proof (cases "fgt ar gapA match \<and> fge ar gapA gapB")
    case True
    with eq show ?thesis by simp
  next
    case False
    with eq show ?thesis by (cases "fge ar match gapB") simp_all
  qed
  then show ?thesis
    unfolding Let_def gapA_def gapB_def match_def .
qed

text \<open>
  The theorem at the cell \<open>(1, 2)\<close> of an input of lengths 3 and 1: there \<open>gapA\<close> is the
  penalised candidate (the restriction on A holds), \<open>gapB\<close> is the extension of the gap
  that the cell \<open>(1, 1)\<close> has opened, scaled by \<open>1/2\<close>, and the cell takes \<open>gapB\<close>.
\<close>

theorem global_recurrence_witness:
  "(1::nat) \<le> 1 \<and> (2::nat) \<le> 3 \<and>
   snd (global_fill exact [0, 1, 0] 3 [- 1] 1 sc_ext (1/2)) 1 1 = 2 \<and>
   fsub exact (fst (global_fill exact [0, 1, 0] 3 [- 1] 1 sc_ext (1/2)) 0 2) (flit exact 1000000)
     = - 1000001 \<and>
   fadd exact (fst (global_fill exact [0, 1, 0] 3 [- 1] 1 sc_ext (1/2)) 1 1)
     (fmul exact (sc_ext 0 2) (1/2)) = - 5/2 \<and>
   fadd exact (fst (global_fill exact [0, 1, 0] 3 [- 1] 1 sc_ext (1/2)) 0 1) (sc_ext 1 2) = - 9/2 \<and>
   fst (global_fill exact [0, 1, 0] 3 [- 1] 1 sc_ext (1/2)) 1 2 = - 5/2 \<and>
   snd (global_fill exact [0, 1, 0] 3 [- 1] 1 sc_ext (1/2)) 1 2 = 2"
  using global_recurrence [of 1 1 2 3 exact "[0, 1, 0]" "[- 1]" sc_ext "1/2"]
  by (simp add: Let_def sc_ext_def exact_def global_fill_def global_init_def for_cells_def
      store_def global_choice_def restrictA_def restrictB_def put_def fresh_matrix_def
      fresh_traceback_def upt_rec)
section \<open>The overlap kernel: free trailing gaps\<close>

lemma overlap_choice_local:
  assumes "1 \<le> i" "1 \<le> j" "\<And>i' j'. before i j i' j' \<Longrightarrow> m i' j' = m' i' j'"
  shows "overlap_choice ar arrayA lA arrayB lB scorer scale (\<lambda>i j. fst (m i j)) (\<lambda>i j. snd (m i j)) i j =
         overlap_choice ar arrayA lA arrayB lB scorer scale (\<lambda>i j. fst (m' i j)) (\<lambda>i j. snd (m' i j)) i j"
proof -
  note n = assms(3) [OF before_neighbours(1) [OF assms(1)]]
    assms(3) [OF before_neighbours(2) [OF assms(2)]]
    assms(3) [OF before_neighbours(3) [OF assms(1)]]
  show ?thesis by (simp only: overlap_choice_def overlap_gapA_def overlap_gapB_def n)
qed

lemma overlap_fill_cells:
  "(\<forall>i j. 1 \<le> i \<and> i \<le> lB \<and> 1 \<le> j \<and> j \<le> lA \<longrightarrow>
      cells (overlap_fill ar arrayA lA arrayB lB scorer scale) i j =
      overlap_choice ar arrayA lA arrayB lB scorer scale
        (fst (overlap_fill ar arrayA lA arrayB lB scorer scale))
        (snd (overlap_fill ar arrayA lA arrayB lB scorer scale)) i j) \<and>
   (\<forall>i j. \<not> (1 \<le> i \<and> i \<le> lB \<and> 1 \<le> j \<and> j \<le> lA) \<longrightarrow>
      cells (overlap_fill ar arrayA lA arrayB lB scorer scale) i j =
      cells (overlap_init ar lA lB) i j)"
  unfolding overlap_fill_def by (rule pair_fill_cells) (rule overlap_choice_local)

text \<open>
  Claim C6. In the overlap kernel the candidate \<open>gapA\<close> of a cell in the last column
  (\<open>j = lA\<close>) is \<open>matrix[i-1][j]\<close>, with no gap cost, no extension scaling and no
  restriction penalty, and the candidate \<open>gapB\<close> of a cell in the last row (\<open>i = lB\<close>)
  is \<open>matrix[i][j-1]\<close>: trailing gaps are free. The candidates are the two computations
  of the source, \<open>overlap_gapA\<close> and \<open>overlap_gapB\<close>, on the filled matrices; the cell
  takes its value and its direction from them, so that a cell of the last column with
  direction 3 holds the very value of the cell above it, and a cell of the last row with
  direction 2 the very value of the cell to its left. No operation of the arithmetic is
  applied to a trailing gap, and the statement holds for every arithmetic.
\<close>

theorem overlap_trailing_gaps:
  assumes "1 \<le> i" "i \<le> lB" "1 \<le> j" "j \<le> lA"
  shows "let matrix = fst (overlap_fill ar arrayA lA arrayB lB scorer scale);
             traceback = snd (overlap_fill ar arrayA lA arrayB lB scorer scale);
             gapA = overlap_gapA ar arrayA lA arrayB scorer scale matrix traceback i j;
             gapB = overlap_gapB ar arrayA arrayB lB scorer scale matrix traceback i j;
             match = fadd ar (matrix (i - 1) (j - 1)) (scorer i j)
         in (matrix i j, traceback i j) =
              (if fgt ar gapA match \<and> fge ar gapA gapB then (gapA, 3)
               else if fge ar match gapB then (match, 1)
               else (gapB, 2)) \<and>
            (j = lA \<longrightarrow> gapA = matrix (i - 1) j) \<and>
            (i = lB \<longrightarrow> gapB = matrix i (j - 1)) \<and>
            (j = lA \<and> traceback i j = 3 \<longrightarrow> matrix i j = matrix (i - 1) j) \<and>
            (i = lB \<and> traceback i j = 2 \<longrightarrow> matrix i j = matrix i (j - 1))"
proof -
  let ?s = "overlap_fill ar arrayA lA arrayB lB scorer scale"
  define gapA where "gapA = overlap_gapA ar arrayA lA arrayB scorer scale (fst ?s) (snd ?s) i j"
  define gapB where "gapB = overlap_gapB ar arrayA arrayB lB scorer scale (fst ?s) (snd ?s) i j"
  define match where "match = fadd ar (fst ?s (i - 1) (j - 1)) (scorer i j)"
  from assms overlap_fill_cells [of lB lA ar arrayA arrayB scorer scale]
  have "cells ?s i j = overlap_choice ar arrayA lA arrayB lB scorer scale (fst ?s) (snd ?s) i j"
    by blast
  then have eq: "(fst ?s i j, snd ?s i j) =
      (if fgt ar gapA match \<and> fge ar gapA gapB then (gapA, 3)
       else if fge ar match gapB then (match, 1)
       else (gapB, 2))"
    by (simp only: cells_def overlap_choice_def Let_def gapA_def gapB_def match_def)
  have a: "j = lA \<longrightarrow> gapA = fst ?s (i - 1) j"
    by (simp add: gapA_def overlap_gapA_def restrictA_def)
  have b: "i = lB \<longrightarrow> gapB = fst ?s i (j - 1)"
    by (simp add: gapB_def overlap_gapB_def restrictB_def)
  have c: "j = lA \<and> snd ?s i j = 3 \<longrightarrow> fst ?s i j = fst ?s (i - 1) j"
  proof (cases "fgt ar gapA match \<and> fge ar gapA gapB")
    case True
    with eq a show ?thesis by auto
  next
    case False
    with eq show ?thesis by (cases "fge ar match gapB") simp_all
  qed
  have d: "i = lB \<and> snd ?s i j = 2 \<longrightarrow> fst ?s i j = fst ?s i (j - 1)"
  proof (cases "fgt ar gapA match \<and> fge ar gapA gapB")
    case True
    with eq show ?thesis by simp
  next
    case False
    with eq b show ?thesis by (cases "fge ar match gapB") auto
  qed
  from eq a b c d have "(fst ?s i j, snd ?s i j) =
      (if fgt ar gapA match \<and> fge ar gapA gapB then (gapA, 3)
       else if fge ar match gapB then (match, 1)
       else (gapB, 2)) \<and>
      (j = lA \<longrightarrow> gapA = fst ?s (i - 1) j) \<and>
      (i = lB \<longrightarrow> gapB = fst ?s i (j - 1)) \<and>
      (j = lA \<and> snd ?s i j = 3 \<longrightarrow> fst ?s i j = fst ?s (i - 1) j) \<and>
      (i = lB \<and> snd ?s i j = 2 \<longrightarrow> fst ?s i j = fst ?s i (j - 1))"
    by (intro conjI)
  then show ?thesis
    unfolding Let_def gapA_def gapB_def match_def .
qed

lemmas ev_overlap = Let_def exact_def overlap_fill_def overlap_init_def for_cells_def store_def
      overlap_choice_def overlap_gapA_def overlap_gapB_def restrictA_def restrictB_def put_def
      fresh_matrix_def fresh_traceback_def upt_rec

text \<open>
  The theorem at two cells. The cell \<open>(1, 2)\<close> of an input of lengths 2 and 1 lies in the
  last row and the last column; the restriction on A would hold but for \<open>j = lA\<close>, and
  the cell takes \<open>gapB\<close>, the value 1 of the cell to its left. The cell \<open>(1, 1)\<close> of an
  input of lengths 1 and 2 lies in the last column and takes \<open>gapA\<close>, the value 0 of the
  cell above it, where a gap that is not trailing costs 2.
\<close>

theorem overlap_trailing_gaps_witness:
  "(1::nat) \<le> 1 \<and> (1::nat) \<le> 2 \<and>
   [- 1] ! 0 < (0::int) \<and> [1, 1] ! 1 > (0::int) \<and>
   fst (overlap_fill exact [1, 1] 2 [- 1] 1 sc0 (1/2)) 1 1 = 1 \<and>
   fst (overlap_fill exact [1, 1] 2 [- 1] 1 sc0 (1/2)) 1 2 = 1 \<and>
   snd (overlap_fill exact [1, 1] 2 [- 1] 1 sc0 (1/2)) 1 2 = 2 \<and>
   fst (overlap_fill exact [1] 1 [- 1, - 1] 2 sc_ext (1/2)) 0 1 = 0 \<and>
   fst (overlap_fill exact [1] 1 [- 1, - 1] 2 sc_ext (1/2)) 1 1 = 0 \<and>
   snd (overlap_fill exact [1] 1 [- 1, - 1] 2 sc_ext (1/2)) 1 1 = 3"
  using overlap_trailing_gaps [of 1 1 2 2 exact "[1, 1]" "[- 1]" sc0 "1/2"]
    overlap_trailing_gaps [of 1 2 1 1 exact "[1]" "[- 1, - 1]" sc_ext "1/2"]
  by (simp add: ev_overlap sc0_def sc_ext_def)
section \<open>The local kernel: the maximum is assigned\<close>








section \<open>The laws of \<^verbatim>\<open>edit_dist\<close>\<close>

lemma edit_init_apply:
  "edit_init m n i 0 = (if i \<le> n then int i else 0)"
  "edit_init m n 0 j = (if j \<le> m then int j else 0)"
  by (auto simp: edit_init_def fold_put_column fold_put_row put_apply)

lemma edit_min_eq:
  "edit_min seqA seqB matrix i j =
     min (min (matrix (i - 1) j + 1) (matrix i (j - 1) + 1))
         (matrix (i - 1) (j - 1) + (if seqA ! (j - 1) = seqB ! (i - 1) then 0 else 1))"
  by (simp add: edit_min_def Let_def min_def)

lemma edit_min_local:
  assumes "1 \<le> i" "1 \<le> j" "\<And>i' j'. before i j i' j' \<Longrightarrow> m i' j' = m' i' j'"
  shows "edit_min seqA seqB m i j = edit_min seqA seqB m' i j"
proof -
  note n = assms(3) [OF before_neighbours(1) [OF assms(1)]]
    assms(3) [OF before_neighbours(2) [OF assms(2)]]
    assms(3) [OF before_neighbours(3) [OF assms(1)]]
  show ?thesis by (simp only: edit_min_def n)
qed

lemma edit_matrix_cells:
  "(\<forall>i j. 1 \<le> i \<and> i \<le> length seqB \<and> 1 \<le> j \<and> j \<le> length seqA \<longrightarrow>
      edit_matrix seqA seqB i j = edit_min seqA seqB (edit_matrix seqA seqB) i j) \<and>
   (\<forall>i j. \<not> (1 \<le> i \<and> i \<le> length seqB \<and> 1 \<le> j \<and> j \<le> length seqA) \<longrightarrow>
      edit_matrix seqA seqB i j = edit_init (length seqA) (length seqB) i j)"
  unfolding edit_matrix_def Let_def
proof (rule fill_cells [where view = "\<lambda>s. s"])
  show "edit_min seqA seqB m i j = edit_min seqA seqB m' i j"
    if "1 \<le> i" "1 \<le> j" "\<And>i' j'. before i j i' j' \<Longrightarrow> m i' j' = m' i' j'" for m m' :: "int matrix" and i j
    using that by (rule edit_min_local)
qed simp

lemma edit_matrix_step:
  "1 \<le> i \<Longrightarrow> i \<le> length seqB \<Longrightarrow> 1 \<le> j \<Longrightarrow> j \<le> length seqA \<Longrightarrow>
   edit_matrix seqA seqB i j =
     min (min (edit_matrix seqA seqB (i - 1) j + 1) (edit_matrix seqA seqB i (j - 1) + 1))
         (edit_matrix seqA seqB (i - 1) (j - 1) + (if seqA ! (j - 1) = seqB ! (i - 1) then 0 else 1))"
  using edit_matrix_cells [of seqB seqA] by (simp add: edit_min_eq)

lemma edit_matrix_border:
  "i \<le> length seqB \<Longrightarrow> edit_matrix seqA seqB i 0 = int i"
  "j \<le> length seqA \<Longrightarrow> edit_matrix seqA seqB 0 j = int j"
  using edit_matrix_cells [of seqB seqA] by (simp_all add: edit_init_apply)

lemma edit_matrix_bounds:
  "i \<le> length seqB \<Longrightarrow> j \<le> length seqA \<Longrightarrow>
   0 \<le> edit_matrix seqA seqB i j \<and> edit_matrix seqA seqB i j \<le> int (max i j)"
proof (induction "i + j" arbitrary: i j rule: less_induct)
  case less
  show ?case
  proof (cases "i = 0 \<or> j = 0")
    case True
    with less.prems show ?thesis by (auto simp: edit_matrix_border)
  next
    case False
    then have ij: "1 \<le> i" "1 \<le> j" by simp_all
    from ij less.prems have a: "0 \<le> edit_matrix seqA seqB (i - 1) j"
      using less.hyps [of "i - 1" j] by simp
    from ij less.prems have b: "0 \<le> edit_matrix seqA seqB i (j - 1)"
      using less.hyps [of i "j - 1"] by simp
    from ij less.prems have c: "0 \<le> edit_matrix seqA seqB (i - 1) (j - 1)"
      "edit_matrix seqA seqB (i - 1) (j - 1) \<le> int (max (i - 1) (j - 1))"
      using less.hyps [of "i - 1" "j - 1"] by simp_all
    from ij have "int (max (i - 1) (j - 1)) + 1 = int (max i j)" by (auto simp: max_def)
    with a b c show ?thesis
      unfolding edit_matrix_step [OF ij(1) less.prems(1) ij(2) less.prems(2)]
      by (auto simp: min_def)
  qed
qed

lemma edit_matrix_diagonal:
  "i \<le> length seqA \<Longrightarrow> edit_matrix seqA seqA i i = 0"
proof (induction i)
  case 0
  then show ?case by (simp add: edit_matrix_border)
next
  case (Suc i)
  then have d: "edit_matrix seqA seqA i i = 0" by simp
  from Suc.prems have "0 \<le> edit_matrix seqA seqA i (Suc i)" "0 \<le> edit_matrix seqA seqA (Suc i) i"
    using edit_matrix_bounds [of i seqA "Suc i" seqA] edit_matrix_bounds [of "Suc i" seqA i seqA]
    by simp_all
  with d Suc.prems show ?case
    using edit_matrix_step [of "Suc i" seqA "Suc i" seqA] by (simp add: min_def)
qed

lemma edit_matrix_transpose:
  "i \<le> length seqB \<Longrightarrow> j \<le> length seqA \<Longrightarrow>
   edit_matrix seqA seqB i j = edit_matrix seqB seqA j i"
proof (induction "i + j" arbitrary: i j rule: less_induct)
  case less
  show ?case
  proof (cases "i = 0 \<or> j = 0")
    case True
    with less.prems show ?thesis by (auto simp: edit_matrix_border)
  next
    case False
    then have ij: "1 \<le> i" "1 \<le> j" by simp_all
    from ij less.prems have a: "edit_matrix seqA seqB (i - 1) j = edit_matrix seqB seqA j (i - 1)"
      using less.hyps [of "i - 1" j] by simp
    from ij less.prems have b: "edit_matrix seqA seqB i (j - 1) = edit_matrix seqB seqA (j - 1) i"
      using less.hyps [of i "j - 1"] by simp
    from ij less.prems have c:
      "edit_matrix seqA seqB (i - 1) (j - 1) = edit_matrix seqB seqA (j - 1) (i - 1)"
      using less.hyps [of "i - 1" "j - 1"] by simp
    have e: "(seqA ! (j - 1) = seqB ! (i - 1)) = (seqB ! (i - 1) = seqA ! (j - 1))" by auto
    show ?thesis
      unfolding edit_matrix_step [OF ij(1) less.prems(1) ij(2) less.prems(2)]
        edit_matrix_step [OF ij(2) less.prems(2) ij(1) less.prems(1)] a b c e
      by (simp add: min.commute)
  qed
qed

text \<open>
  Claim C7. For all non-empty symbol sequences A and B: \<open>edit_dist(A, A) = 0\<close>,
  \<open>edit_dist(A, B) = edit_dist(B, A)\<close> and \<open>0 \<le> edit_dist(A, B) \<le> 1\<close>, where
  \<open>edit_dist\<close> is the unit-cost Levenshtein distance divided by \<open>max(lA, lB)\<close>.
\<close>

theorem edit_dist_laws:
  assumes "seqA \<noteq> []" "seqB \<noteq> []"
  shows "edit_dist seqA seqA = Some 0 \<and>
         edit_dist seqA seqB = edit_dist seqB seqA \<and>
         (\<exists>d. edit_dist seqA seqB = Some d \<and> 0 \<le> d \<and> d \<le> 1)"
proof -
  let ?m = "length seqA" and ?n = "length seqB"
  from assms have pos: "0 < ?m" "0 < ?n" by simp_all
  have 1: "edit_dist seqA seqA = Some 0"
    using pos by (simp add: edit_dist_def Let_def edit_matrix_diagonal)
  have 2: "edit_dist seqA seqB = edit_dist seqB seqA"
    using edit_matrix_transpose [of ?n seqB ?m seqA]
    by (simp add: edit_dist_def Let_def max.commute)
  have b: "0 \<le> edit_matrix seqA seqB ?n ?m" "edit_matrix seqA seqB ?n ?m \<le> int (max ?n ?m)"
    using edit_matrix_bounds [of ?n seqB ?m seqA] by simp_all
  from pos have mx: "0 < max ?n ?m" by (simp add: less_max_iff_disj)
  have "real_of_int (edit_matrix seqA seqB ?n ?m) \<le> real (max ?n ?m)"
    using b(2) by (metis of_int_le_iff of_int_of_nat_eq)
  with b(1) mx have 3: "0 \<le> real_of_int (edit_matrix seqA seqB ?n ?m) / real (max ?n ?m)"
    "real_of_int (edit_matrix seqA seqB ?n ?m) / real (max ?n ?m) \<le> 1"
    by (simp_all add: divide_le_eq)
  from assms have "edit_dist seqA seqB =
      Some (real_of_int (edit_matrix seqA seqB ?n ?m) / real (max ?n ?m))"
    by (simp add: edit_dist_def Let_def)
  with 3 have "\<exists>d. edit_dist seqA seqB = Some d \<and> 0 \<le> d \<and> d \<le> 1"
    by blast
  with 1 2 show ?thesis by simp
qed

lemmas ev_edit = edit_dist_def edit_matrix_def edit_init_def edit_min_def for_cells_def put_def
  Let_def upt_rec

theorem edit_dist_laws_witness:
  "[''a'', ''b'', ''c''] \<noteq> [] \<and> [''a'', ''x'', ''c''] \<noteq> [] \<and>
   edit_dist [''a'', ''b'', ''c''] [''a'', ''b'', ''c''] = Some 0 \<and>
   edit_dist [''a'', ''b'', ''c''] [''a'', ''x'', ''c''] = Some (1/3) \<and>
   edit_dist [''a'', ''x'', ''c''] [''a'', ''b'', ''c''] = Some (1/3)"
  using edit_dist_laws [of "[''a'', ''b'', ''c'']" "[''a'', ''x'', ''c'']"]
  by (simp add: ev_edit)

section \<open>The drivers on valid input\<close>

lemma try_step_simps:
  "try_step body (Inr s) = body s"
  "try_step body (Inl e) = Inl e"
  by (simp_all add: try_step_def)

lemma gap_weights_ok:
  assumes "lA \<le> length wghA" "lB \<le> length wghB"
  shows "\<exists>scorer. gap_weights ar wghA wghB lA lB = Inr scorer"
proof -
  have b: "\<exists>scorer. fold (\<lambda>k. try_step (\<lambda>scorer.
                 case item wghB (k - 1) of Inl e \<Rightarrow> Inl e | Inr w \<Rightarrow> Inr (put scorer k 0 w)))
            [1..<Suc lB] (Inr (put (fresh_matrix ar) 0 0 (flit ar 0))) = Inr scorer"
    by (rule fold_upt_rule [where P = "\<lambda>k r. \<exists>scorer. r = Inr scorer"])
      (use assms in \<open>auto simp: try_step_simps item_def\<close>)
  then obtain s0 where s0: "fold (\<lambda>k. try_step (\<lambda>scorer.
                 case item wghB (k - 1) of Inl e \<Rightarrow> Inl e | Inr w \<Rightarrow> Inr (put scorer k 0 w)))
            [1..<Suc lB] (Inr (put (fresh_matrix ar) 0 0 (flit ar 0))) = Inr s0" ..
  show ?thesis
    unfolding gap_weights_def s0
    by (rule fold_upt_rule [where P = "\<lambda>k r. \<exists>scorer. r = Inr scorer"])
      (use assms in \<open>auto simp: try_step_simps item_def\<close>)
qed

lemma sonority_ok:
  assumes "entry \<noteq> None" "l - 1 < length prsA" "k - 1 < length prsB"
  shows "\<exists>scorer'. sonority ar prsA prsB sonority_factor k l entry scorer = Inr scorer'"
  using assms by (auto simp: sonority_def char_at_def)

lemma scorer_cells_ok:
  fixes ar :: "'f arith"
  assumes "\<exists>s. r = Inr s"
    and "\<And>k l. 1 \<le> k \<Longrightarrow> k \<le> lB \<Longrightarrow> 1 \<le> l \<Longrightarrow> l \<le> lA \<Longrightarrow> entry k l \<noteq> None"
    and "lA \<le> length prsA" "lB \<le> length prsB"
  shows "\<exists>scorer. for_cells lB lA
           (\<lambda>k l. try_step (sonority ar prsA prsB sonority_factor k l (entry k l))) r = Inr scorer"
proof (rule for_cells_rule [where Q = "\<lambda>k l r. \<exists>scorer :: 'f matrix. r = Inr scorer"])
  show "\<exists>scorer. r = Inr scorer" by (rule assms(1))
next
  fix i j and s :: "error + 'f matrix"
  assume ij: "1 \<le> i" "i \<le> lB" "1 \<le> j" "j \<le> lA" and "\<exists>scorer. s = Inr scorer"
  then obtain scorer where s: "s = Inr scorer" by blast
  from ij assms have "\<exists>scorer'. sonority ar prsA prsB sonority_factor i j (entry i j) scorer = Inr scorer'"
    by (intro sonority_ok) auto
  with s show "\<exists>scorer. try_step (sonority ar prsA prsB sonority_factor i j (entry i j)) s = Inr scorer"
    by (simp add: try_step_simps)
qed

lemma scorer_AB_ok:
  assumes "valid_input seqA seqB wghA wghB resA resB prsA prsB score_dict"
  shows "\<exists>scorer. scorer_AB ar seqA seqB wghA wghB prsA prsB score_dict sonority_factor = Inr scorer"
  unfolding scorer_AB_def Let_def
proof (rule scorer_cells_ok)
  show "\<exists>s. gap_weights ar wghA wghB (length seqA) (length seqB) = Inr s"
    using assms by (intro gap_weights_ok) (simp_all add: valid_input_def)
  show "score_dict (seqA ! (l - 1), seqB ! (k - 1)) \<noteq> None"
    if "1 \<le> k" "k \<le> length seqB" "1 \<le> l" "l \<le> length seqA" for k l
  proof -
    from that have "seqA ! (l - 1) \<in> set seqA" "seqB ! (k - 1) \<in> set seqB" by simp_all
    with assms show ?thesis by (simp add: valid_input_def)
  qed
qed (use assms in \<open>simp_all add: valid_input_def\<close>)

lemma restrictions_array_ok:
  assumes "n \<le> length res"
  shows "restrictions_array res n = Inr (take n res)"
  unfolding restrictions_array_def
  by (rule fold_upt_rule [where P = "\<lambda>k r. r = Inr (take k res)"])
    (use assms in \<open>auto simp: try_step_simps item_def take_Suc_conv_app_nth\<close>)

lemma length_insert_gaps: "length (insert_gaps n k out) = length out + nat n"
proof -
  have "length (fold (\<lambda>l. list_insert k ''-'') xs out) = length out + length xs" for xs :: "nat list"
    by (induction xs arbitrary: out) (auto simp: list_insert_def)
  then show ?thesis by (simp add: insert_gaps_def)
qed

lemma retrieve_fold_ok:
  assumes "\<forall>x \<in> set alm. 0 \<le> x"
  shows "m \<le> length alm \<Longrightarrow>
    \<exists>out'. fold (\<lambda>k. try_step (retrieve_step alm k)) (rev [0..<m]) (Inr out) = Inr out' \<and>
            int (length out') = int (length out) + sum_list (take m alm)"
proof (induction m arbitrary: out)
  case 0
  then show ?case by simp
next
  case (Suc m)
  then have m: "m < length alm" by simp
  with assms have nn: "0 \<le> alm ! m" by simp
  define out1 where "out1 = (if alm ! m > 0 then insert_gaps (alm ! m) m out else out)"
  from nn have step: "retrieve_step alm m out = Inr out1"
    by (auto simp: retrieve_step_def out1_def)
  from nn have len: "int (length out1) = int (length out) + alm ! m"
    by (simp add: out1_def length_insert_gaps)
  from Suc.IH [of out1] m obtain out' where
    "fold (\<lambda>k. try_step (retrieve_step alm k)) (rev [0..<m]) (Inr out1) = Inr out'"
    "int (length out') = int (length out1) + sum_list (take m alm)"
    by auto
  with step len m show ?case
    by (simp add: try_step_simps take_Suc_conv_app_nth)
qed

lemma retrieve_ok:
  assumes "\<forall>x \<in> set alm. 0 \<le> x" "length alm = n + 1"
  shows "\<exists>out'. retrieve alm n out = Inr out' \<and> int (length out') = int (length out) + sum_list alm"
  using retrieve_fold_ok [OF assms(1), of "Suc n" out] assms(2)
  by (simp add: retrieve_def)

lemma align_with_balanced:
  assumes "length resA = length seqA" "length resB = length seqB"
    and "balanced (length seqA) (length seqB)
           (f resA (length seqA) resB (length seqB) scorer scale
              (replicate (length seqA + 1) 0) (replicate (length seqB + 1) 0))"
  shows "\<exists>outA outB sim. align_with (Some f) seqA seqB resA resB scorer scale = Inr (outA, outB, sim) \<and>
           length outA = length outB"
proof -
  from assms(3) obtain sim almA almB where
    r: "f resA (length seqA) resB (length seqB) scorer scale
              (replicate (length seqA + 1) 0) (replicate (length seqB + 1) 0) = Some (sim, almA, almB)"
    and l: "length almA = length seqA + 1" "length almB = length seqB + 1"
    and nn: "\<forall>x \<in> set almA. 0 \<le> x" "\<forall>x \<in> set almB. 0 \<le> x"
    and s: "int (length seqA) + sum_list almA = int (length seqB) + sum_list almB"
    unfolding balanced_def by blast
  from retrieve_ok [OF nn(1) l(1), of seqA] obtain outA where
    a: "retrieve almA (length seqA) seqA = Inr outA"
      "int (length outA) = int (length seqA) + sum_list almA" by blast
  from retrieve_ok [OF nn(2) l(2), of seqB] obtain outB where
    b: "retrieve almB (length seqB) seqB = Inr outB"
      "int (length outB) = int (length seqB) + sum_list almB" by blast
  from a(2) b(2) s have "length outA = length outB" by simp
  moreover have "align_with (Some f) seqA seqB resA resB scorer scale = Inr (outA, outB, sim)"
    using assms(1,2) r a(1) b(1)
    by (simp add: align_with_def Let_def and_then_def restrictions_array_ok call_align_def)
  ultimately show ?thesis by blast
qed

section \<open>The traceback walks\<close>

lemma snd_fold_pair:
  "snd (fold (\<lambda>i (m, t). (f i m, g i t)) xs s) = fold g xs (snd s)"
  by (induction xs arbitrary: s) (auto simp: case_prod_beta)

lemma border_init:
  "border lA lB (fold (\<lambda>i traceback. put traceback i 0 3) [1..<Suc lB]
                  (fold (\<lambda>i traceback. put traceback 0 i 2) [1..<Suc lA] t))"
  by (auto simp: border_def fold_put_column fold_put_row simp del: upt_Suc)

lemma global_init_border: "border lA lB (snd (global_init ar lA lB scorer scale))"
  unfolding global_init_def snd_fold_pair by (rule border_init)

lemma overlap_init_border: "border lA lB (snd (overlap_init ar lA lB))"
  unfolding overlap_init_def snd_fold_pair by (rule border_init)

lemma repeats_init_border: "border lA lB (snd (repeats_init ar lA lB))"
  unfolding repeats_init_def snd_fold_pair by (rule border_init)

lemma dialign_init_border: "border lA lB (snd (dialign_init ar lA lB))"
  unfolding dialign_init_def snd_fold_pair by (rule border_init)

lemma border_cong:
  assumes "border lA lB t" "\<And>i j. i = 0 \<or> j = 0 \<Longrightarrow> t' i j = t i j"
  shows "border lA lB t'"
  using assms by (simp add: border_def)

lemma cells_snd: "cells s i j = cells s' i j \<Longrightarrow> snd s i j = snd s' i j"
  by (simp add: cells_def)

lemma global_fill_border: "border lA lB (snd (global_fill ar arrayA lA arrayB lB scorer scale))"
proof (rule border_cong [OF global_init_border])
  fix i j :: nat
  assume "i = 0 \<or> j = 0"
  then have "\<not> (1 \<le> i \<and> i \<le> lB \<and> 1 \<le> j \<and> j \<le> lA)" by auto
  with global_fill_cells [of lB lA ar arrayA arrayB scorer scale]
  show "snd (global_fill ar arrayA lA arrayB lB scorer scale) i j = snd (global_init ar lA lB scorer scale) i j"
    by (intro cells_snd) blast
qed

lemma overlap_fill_border: "border lA lB (snd (overlap_fill ar arrayA lA arrayB lB scorer scale))"
proof (rule border_cong [OF overlap_init_border])
  fix i j :: nat
  assume "i = 0 \<or> j = 0"
  then have "\<not> (1 \<le> i \<and> i \<le> lB \<and> 1 \<le> j \<and> j \<le> lA)" by auto
  with overlap_fill_cells [of lB lA ar arrayA arrayB scorer scale]
  show "snd (overlap_fill ar arrayA lA arrayB lB scorer scale) i j = snd (overlap_init ar lA lB) i j"
    by (intro cells_snd) blast
qed

lemma sum_list_bump:
  fixes xs :: "int list"
  shows "k < length xs \<Longrightarrow> sum_list (xs[k := xs ! k + d]) = sum_list xs + d"
proof (induction xs arbitrary: k)
  case Nil
  then show ?case by simp
next
  case (Cons x xs)
  then show ?case by (cases k) simp_all
qed

lemma nonneg_bump:
  fixes xs :: "int list"
  assumes "\<forall>x \<in> set xs. 0 \<le> x" "0 \<le> d" "k < length xs"
  shows "\<forall>x \<in> set (xs[k := xs ! k + d]). 0 \<le> x"
proof
  fix x
  assume "x \<in> set (xs[k := xs ! k + d])"
  then have "x = xs ! k + d \<or> x \<in> set xs"
    using set_update_subset_insert [of xs k "xs ! k + d"] by auto
  with assms show "0 \<le> x" by auto
qed

lemma counts_ok_bumpA:
  "counts_ok lA lB almA almB \<Longrightarrow> 0 \<le> d \<Longrightarrow> k \<le> lA \<Longrightarrow>
   counts_ok lA lB (almA[k := almA ! k + d]) almB"
  using nonneg_bump [of almA d k] by (simp add: counts_ok_def)

lemma counts_ok_bumpB:
  "counts_ok lA lB almA almB \<Longrightarrow> 0 \<le> d \<Longrightarrow> k \<le> lB \<Longrightarrow>
   counts_ok lA lB almA (almB[k := almB ! k + d])"
  using nonneg_bump [of almB d k] by (simp add: counts_ok_def)

lemma traceback_walk_total:
  "border lA lB traceback \<Longrightarrow> 0 \<le> i \<Longrightarrow> i \<le> int lB \<Longrightarrow> 0 \<le> j \<Longrightarrow> j \<le> int lA \<Longrightarrow> counts_ok lA lB almA almB \<Longrightarrow>
     \<exists>almA' almB'. traceback_walk traceback i j almA almB = Some (almA', almB') \<and>
        counts_ok lA lB almA' almB' \<and>
        sum_list almA' - sum_list almB' = sum_list almA - sum_list almB + i - j"
proof (induction traceback i j almA almB rule: traceback_walk.induct)
  case (1 traceback i j almA almB)
  note b = "1.prems"(1)
  note p = "1.prems"(2-)
  show ?case
  proof (cases "i > 0 \<or> j > 0")
    case False
    with p show ?thesis
      by (subst traceback_walk.simps) simp
  next
    case True
    from p have nn: "\<not> (i < 0 \<or> j < 0)" by simp
    from p have lens: "nat j < length almA" "nat i < length almB"
      by (simp_all add: counts_ok_def)
    consider (up) "traceback (nat i) (nat j) = 3"
      | (diag) "traceback (nat i) (nat j) \<noteq> 3" "traceback (nat i) (nat j) = 1"
      | (left) "traceback (nat i) (nat j) \<noteq> 3" "traceback (nat i) (nat j) \<noteq> 1"
      by blast
    then show ?thesis
    proof cases
      case up
      have "i > 0"
      proof (rule ccontr)
        assume "\<not> i > 0"
        with True p have "i = 0" "1 \<le> nat j" "nat j \<le> lA" by simp_all
        with b up show False by (simp add: border_def)
      qed
      with p have c: "counts_ok lA lB (almA[nat j := almA ! nat j + 1]) almB"
        by (intro counts_ok_bumpA) simp_all
      from "1.IH"(1) [OF True nn up b _ _ p(3,4) c] \<open>i > 0\<close> p(2)
      obtain almA' almB' where
        "traceback_walk traceback (i - 1) j (almA[nat j := almA ! nat j + 1]) almB = Some (almA', almB')"
        "counts_ok lA lB almA' almB'"
        "sum_list almA' - sum_list almB' =
           sum_list (almA[nat j := almA ! nat j + 1]) - sum_list almB + (i - 1) - j"
        by auto
      with True nn up lens show ?thesis
        by (subst traceback_walk.simps) (simp add: sum_list_bump)
    next
      case diag
      have "i > 0"
      proof (rule ccontr)
        assume "\<not> i > 0"
        with True p have "i = 0" "1 \<le> nat j" "nat j \<le> lA" by simp_all
        with b diag show False by (simp add: border_def)
      qed
      have "j > 0"
      proof (rule ccontr)
        assume "\<not> j > 0"
        with True p have "j = 0" "1 \<le> nat i" "nat i \<le> lB" by simp_all
        with b diag show False by (simp add: border_def)
      qed
      from "1.IH"(2) [OF True nn diag b _ _ _ _ p(5)] \<open>i > 0\<close> \<open>j > 0\<close> p(2,4)
      obtain almA' almB' where
        "traceback_walk traceback (i - 1) (j - 1) almA almB = Some (almA', almB')"
        "counts_ok lA lB almA' almB'"
        "sum_list almA' - sum_list almB' = sum_list almA - sum_list almB + (i - 1) - (j - 1)"
        by auto
      with True nn diag show ?thesis
        by (subst traceback_walk.simps) simp
    next
      case left
      have "j > 0"
      proof (rule ccontr)
        assume "\<not> j > 0"
        with True p have "j = 0" "1 \<le> nat i" "nat i \<le> lB" by simp_all
        with b left show False by (simp add: border_def)
      qed
      with p have c: "counts_ok lA lB almA (almB[nat i := almB ! nat i + 1])"
        by (intro counts_ok_bumpB) simp_all
      from "1.IH"(3) [OF True nn left b p(1,2) _ _ c] \<open>j > 0\<close> p(4)
      obtain almA' almB' where
        "traceback_walk traceback i (j - 1) almA (almB[nat i := almB ! nat i + 1]) = Some (almA', almB')"
        "counts_ok lA lB almA' almB'"
        "sum_list almA' - sum_list almB' =
           sum_list almA - sum_list (almB[nat i := almB ! nat i + 1]) + i - (j - 1)"
        by auto
      with True nn left lens show ?thesis
        by (subst traceback_walk.simps) (simp add: sum_list_bump)
    qed
  qed
qed

lemma counts_ok_zero: "counts_ok lA lB (replicate (lA + 1) 0) (replicate (lB + 1) 0)"
  by (simp add: counts_ok_def)

lemma sum_list_zero: "sum_list (replicate n (0::int)) = 0"
  by (simp add: sum_list_replicate)

lemma walk_balanced:
  assumes "border lA lB traceback"
  shows "balanced lA lB (map_option (\<lambda>(almA', almB'). (sim, almA', almB'))
           (traceback_walk traceback (int lB) (int lA) (replicate (lA + 1) 0) (replicate (lB + 1) 0)))"
proof -
  from traceback_walk_total [OF assms _ _ _ _ counts_ok_zero, of "int lB" "int lA"]
  obtain almA' almB' where
    "traceback_walk traceback (int lB) (int lA) (replicate (lA + 1) 0) (replicate (lB + 1) 0)
       = Some (almA', almB')"
    "counts_ok lA lB almA' almB'"
    "sum_list almA' - sum_list almB' = int lB - int lA"
    by (auto simp: sum_list_zero)
  then show ?thesis
    by (auto simp: balanced_def counts_ok_def)
qed

lemma global_align_balanced:
  assumes "1 \<le> lB"
  shows "balanced lA lB (global_align ar arrayA lA arrayB lB scorer scale
     (replicate (lA + 1) 0) (replicate (lB + 1) 0))"
  using walk_balanced [OF global_fill_border [of lA lB ar arrayA arrayB scorer scale]] assms
  by (simp add: global_align_def walk_start_def case_prod_beta Let_def)

lemma overlap_align_balanced:
  assumes "1 \<le> lB"
  shows "balanced lA lB (overlap_align ar arrayA lA arrayB lB scorer scale
     (replicate (lA + 1) 0) (replicate (lB + 1) 0))"
  using walk_balanced [OF overlap_fill_border [of lA lB ar arrayA arrayB scorer scale]] assms
  by (simp add: overlap_align_def walk_start_def case_prod_beta Let_def)

lemma add_gaps_one: "add_gaps 1 p alm = alm[p := alm ! p + 1]"
  by (simp add: add_gaps_def)

lemma scan_outer_first:
  "0 < i \<Longrightarrow> 0 < j \<Longrightarrow> scan_outer traceback i (j - 1) l = (j - 1, i - 1)"
  by (subst scan_outer.simps) (simp add: scan_inner_def)

lemma repeats_walk_total:
  "border lA lB traceback \<Longrightarrow> 0 \<le> i \<Longrightarrow> i \<le> int lB \<Longrightarrow> 0 \<le> j \<Longrightarrow> j \<le> int lA \<Longrightarrow>
   counts_ok lA lB almA almB \<Longrightarrow>
     \<exists>sim' almA' almB'. repeats_walk ar matrix traceback i j l sim almA almB = Some (sim', almA', almB') \<and>
        counts_ok lA lB almA' almB' \<and>
        sum_list almA' - sum_list almB' = sum_list almA - sum_list almB + i - j"
proof (induction ar matrix traceback i j l sim almA almB rule: repeats_walk.induct)
  case (1 ar matrix traceback i j l sim almA almB)
  note b = "1.prems"(1)
  note p = "1.prems"(2-)
  show ?case
  proof (cases "i > 0 \<or> j > 0")
    case False
    with p show ?thesis
      by (subst repeats_walk.simps) simp
  next
    case True
    from p have nn: "\<not> (i < 0 \<or> j < 0)" by simp
    from p have lens: "nat j < length almA" "nat i < length almB"
      by (simp_all add: counts_ok_def)
    consider (up) "traceback (nat i) (nat j) = 3"
      | (diag) "traceback (nat i) (nat j) \<noteq> 3" "traceback (nat i) (nat j) = 1"
      | (left) "traceback (nat i) (nat j) \<noteq> 3" "traceback (nat i) (nat j) \<noteq> 1"
          "traceback (nat i) (nat j) = 2"
      | (skip) "traceback (nat i) (nat j) \<noteq> 3" "traceback (nat i) (nat j) \<noteq> 1"
          "traceback (nat i) (nat j) \<noteq> 2"
      by blast
    then show ?thesis
    proof cases
      case up
      have "i > 0"
      proof (rule ccontr)
        assume "\<not> i > 0"
        with True p have "i = 0" "1 \<le> nat j" "nat j \<le> lA" by simp_all
        with b up show False by (simp add: border_def)
      qed
      with p have c: "counts_ok lA lB (almA[nat j := almA ! nat j + 1]) almB"
        by (intro counts_ok_bumpA) simp_all
      from "1.IH"(1) [OF True nn up b _ _ p(3,4) c] \<open>i > 0\<close> p(2)
      obtain sim' almA' almB' where
        "repeats_walk ar matrix traceback (i - 1) j l sim (almA[nat j := almA ! nat j + 1]) almB
           = Some (sim', almA', almB')"
        "counts_ok lA lB almA' almB'"
        "sum_list almA' - sum_list almB' =
           sum_list (almA[nat j := almA ! nat j + 1]) - sum_list almB + (i - 1) - j"
        by auto
      with True nn up lens show ?thesis
        by (subst repeats_walk.simps) (simp add: sum_list_bump)
    next
      case diag
      have "i > 0"
      proof (rule ccontr)
        assume "\<not> i > 0"
        with True p have "i = 0" "1 \<le> nat j" "nat j \<le> lA" by simp_all
        with b diag show False by (simp add: border_def)
      qed
      have "j > 0"
      proof (rule ccontr)
        assume "\<not> j > 0"
        with True p have "j = 0" "1 \<le> nat i" "nat i \<le> lB" by simp_all
        with b diag show False by (simp add: border_def)
      qed
      from "1.IH"(2) [OF True nn diag b _ _ _ _ p(5)] \<open>i > 0\<close> \<open>j > 0\<close> p(2,4)
      obtain sim' almA' almB' where
        "repeats_walk ar matrix traceback (i - 1) (j - 1) l sim almA almB = Some (sim', almA', almB')"
        "counts_ok lA lB almA' almB'"
        "sum_list almA' - sum_list almB' = sum_list almA - sum_list almB + (i - 1) - (j - 1)"
        by auto
      with True nn diag show ?thesis
        by (subst repeats_walk.simps) simp
    next
      case left
      have "j > 0"
      proof (rule ccontr)
        assume "\<not> j > 0"
        with True p have "j = 0" "1 \<le> nat i" "nat i \<le> lB" by simp_all
        with b left show False by (simp add: border_def)
      qed
      with p have c: "counts_ok lA lB almA (almB[nat i := almB ! nat i + 1])"
        by (intro counts_ok_bumpB) simp_all
      from "1.IH"(3) [OF True nn left b p(1,2) _ _ c] \<open>j > 0\<close> p(4)
      obtain sim' almA' almB' where
        "repeats_walk ar matrix traceback i (j - 1) l sim almA (almB[nat i := almB ! nat i + 1])
           = Some (sim', almA', almB')"
        "counts_ok lA lB almA' almB'"
        "sum_list almA' - sum_list almB' =
           sum_list almA - sum_list (almB[nat i := almB ! nat i + 1]) + i - (j - 1)"
        by auto
      with True nn left lens show ?thesis
        by (subst repeats_walk.simps) (simp add: sum_list_bump)
    next
      case skip
      have "i > 0"
      proof (rule ccontr)
        assume "\<not> i > 0"
        with True p have "i = 0" "1 \<le> nat j" "nat j \<le> lA" by simp_all
        with b skip show False by (simp add: border_def)
      qed
      have "j > 0"
      proof (rule ccontr)
        assume "\<not> j > 0"
        with True p have "j = 0" "1 \<le> nat i" "nat i \<le> lB" by simp_all
        with b skip show False by (simp add: border_def)
      qed
      have scan: "scan_outer traceback i (j - 1) l = (j - 1, i - 1)"
        using \<open>i > 0\<close> \<open>j > 0\<close> by (rule scan_outer_first)
      define almA1 where "almA1 = almA[nat (j - 1) := almA ! nat (j - 1) + 1]"
      define almB1 where "almB1 = almB[nat i := almB ! nat i + 1]"
      from p \<open>j > 0\<close> have c: "counts_ok lA lB almA1 almB1"
        unfolding almA1_def almB1_def
        by (intro counts_ok_bumpA counts_ok_bumpB) simp_all
      have "\<exists>sim' almA' almB'.
          repeats_walk ar matrix traceback (i - 1) (j - 1) (i - 1)
            (fadd ar sim (matrix (nat (i - 1)) (nat (j - 1)))) almA1 almB1 = Some (sim', almA', almB') \<and>
          counts_ok lA lB almA' almB' \<and>
          sum_list almA' - sum_list almB' = sum_list almA1 - sum_list almB1 + (i - 1) - (j - 1)"
        using "1.IH"(4) [OF True nn skip scan [symmetric] _ refl refl refl refl refl b]
          c \<open>i > 0\<close> \<open>j > 0\<close> p(2,4)
        by (simp add: almA1_def almB1_def add_gaps_one)
      then obtain sim' almA' almB' where
        "repeats_walk ar matrix traceback (i - 1) (j - 1) (i - 1)
            (fadd ar sim (matrix (nat (i - 1)) (nat (j - 1)))) almA1 almB1 = Some (sim', almA', almB')"
        "counts_ok lA lB almA' almB'"
        "sum_list almA' - sum_list almB' = sum_list almA1 - sum_list almB1 + (i - 1) - (j - 1)"
        by blast
      moreover from lens \<open>j > 0\<close> have "sum_list almA1 = sum_list almA + 1" "sum_list almB1 = sum_list almB + 1"
        by (simp_all add: almA1_def almB1_def sum_list_bump)
      ultimately show ?thesis
        using True nn skip scan \<open>i > 0\<close> \<open>j > 0\<close>
        by (subst repeats_walk.simps) (simp add: almA1_def almB1_def Let_def add_gaps_one)
    qed
  qed
qed

section \<open>Length agreement of the two outputs\<close>

lemma repeats_choice_local:
  assumes "1 \<le> i" "1 \<le> j" "\<And>i' j'. before i j i' j' \<Longrightarrow> m i' j' = m' i' j'"
  shows "repeats_choice ar arrayA lA arrayB lB scorer scale (\<lambda>i j. fst (m i j)) (\<lambda>i j. snd (m i j)) i j =
         repeats_choice ar arrayA lA arrayB lB scorer scale (\<lambda>i j. fst (m' i j)) (\<lambda>i j. snd (m' i j)) i j"
proof -
  note n = assms(3) [OF before_neighbours(1) [OF assms(1)]]
    assms(3) [OF before_neighbours(2) [OF assms(2)]]
    assms(3) [OF before_neighbours(3) [OF assms(1)]]
  show ?thesis by (simp only: repeats_choice_def n)
qed

lemma repeats_fill_cells:
  "(\<forall>i j. 1 \<le> i \<and> i \<le> lB \<and> 1 \<le> j \<and> j \<le> lA \<longrightarrow>
      cells (repeats_fill ar arrayA lA arrayB lB scorer scale) i j =
      repeats_choice ar arrayA lA arrayB lB scorer scale
        (fst (repeats_fill ar arrayA lA arrayB lB scorer scale))
        (snd (repeats_fill ar arrayA lA arrayB lB scorer scale)) i j) \<and>
   (\<forall>i j. \<not> (1 \<le> i \<and> i \<le> lB \<and> 1 \<le> j \<and> j \<le> lA) \<longrightarrow>
      cells (repeats_fill ar arrayA lA arrayB lB scorer scale) i j =
      cells (repeats_init ar lA lB) i j)"
  unfolding repeats_fill_def by (rule pair_fill_cells) (rule repeats_choice_local)

lemma repeats_fill_border: "border lA lB (snd (repeats_fill ar arrayA lA arrayB lB scorer scale))"
proof (rule border_cong [OF repeats_init_border])
  fix i j :: nat
  assume "i = 0 \<or> j = 0"
  then have "\<not> (1 \<le> i \<and> i \<le> lB \<and> 1 \<le> j \<and> j \<le> lA)" by auto
  with repeats_fill_cells [of lB lA ar arrayA arrayB scorer scale]
  show "snd (repeats_fill ar arrayA lA arrayB lB scorer scale) i j = snd (repeats_init ar lA lB) i j"
    by (intro cells_snd) blast
qed

lemma repeats_align_balanced:
  assumes "1 \<le> lB"
  shows "balanced lA lB (repeats_align ar arrayA lA arrayB lB scorer scale
     (replicate (lA + 1) 0) (replicate (lB + 1) 0))"
proof -
  let ?s = "repeats_fill ar arrayA lA arrayB lB scorer scale"
  from repeats_walk_total [OF repeats_fill_border [of lA lB ar arrayA arrayB scorer scale]
      _ _ _ _ counts_ok_zero, of "int lB" "int lA" ar "fst ?s" 0 "fst ?s lB lA"]
  obtain sim' almA' almB' where
    "repeats_walk ar (fst ?s) (snd ?s) (int lB) (int lA) 0 (fst ?s lB lA)
       (replicate (lA + 1) 0) (replicate (lB + 1) 0) = Some (sim', almA', almB')"
    "counts_ok lA lB almA' almB'"
    "sum_list almA' - sum_list almB' = int lB - int lA"
    by (auto simp: sum_list_zero)
  with assms show ?thesis
    by (auto simp: balanced_def counts_ok_def repeats_align_def walk_start_def case_prod_beta Let_def)
qed

lemma best_diagonal_length:
  "1 \<le> snd (best_diagonal ar matrix scorer i j) \<and>
   snd (best_diagonal ar matrix scorer i j) \<le> max 1 (if i < j then i else j)"
  unfolding best_diagonal_def Let_def
  by (rule fold_upt_rule [where P = "\<lambda>k r. 1 \<le> snd r \<and> snd r \<le> max 1 k"])
    (auto simp: case_prod_beta Let_def)

lemma fold_put_diagonal:
  "fold (\<lambda>k t. put t (i - k) (j - k) v) [0..<n] t a b =
     (if \<exists>k<n. a = i - k \<and> b = j - k then v else t a b)"
  by (induction n) (auto simp: put_apply less_Suc_eq)

lemma dialign_cell_border:
  assumes "1 \<le> i" "1 \<le> j" "a = 0 \<or> b = 0"
  shows "snd (dialign_cell ar arrayA lA arrayB lB scorer i j s) a b = snd s a b"
proof -
  have "snd (best_diagonal ar (fst s) scorer i j) \<le> min i j"
    using best_diagonal_length [of ar "fst s" scorer i j] assms(1,2) by (auto simp: max_def min_def split: if_splits)
  with assms have "\<not> (\<exists>k<snd (best_diagonal ar (fst s) scorer i j). a = i - k \<and> b = j - k)"
    by auto
  with assms show ?thesis
    by (auto simp: dialign_cell_def Let_def case_prod_beta put_apply fold_put_diagonal)
qed

lemma dialign_fill_border: "border lA lB (snd (dialign_fill ar arrayA lA arrayB lB scorer scale))"
proof (rule border_cong [OF dialign_init_border])
  fix a b :: nat
  assume ab: "a = 0 \<or> b = 0"
  have "snd (for_cells lB lA (dialign_cell ar arrayA lA arrayB lB scorer) (dialign_init ar lA lB)) a b
      = snd (dialign_init ar lA lB) a b"
    by (rule for_cells_rule [where Q = "\<lambda>i j s. snd s a b = snd (dialign_init ar lA lB) a b"])
      (simp_all add: dialign_cell_border ab)
  then show "snd (dialign_fill ar arrayA lA arrayB lB scorer scale) a b = snd (dialign_init ar lA lB) a b"
    by (simp add: dialign_fill_def)
qed

lemma dialign_align_balanced:
  assumes "1 \<le> lB"
  shows "balanced lA lB (dialign_align ar arrayA lA arrayB lB scorer scale
     (replicate (lA + 1) 0) (replicate (lB + 1) 0))"
  using walk_balanced [OF dialign_fill_border [of lA lB ar arrayA arrayB scorer scale]] assms
  by (simp add: dialign_align_def walk_start_def case_prod_beta Let_def)

text \<open>
  Claim C1, amended. For the modes global, overlap, repeats and dialign and every valid
  input, \<^verbatim>\<open>align_pairwise\<close> returns, and its two output sequences have the same
  length, whatever the arithmetic of the scores. (In local mode the positions outside the
  aligned region are overwritten by \<open>"*"\<close> and not padded, so the two lengths can differ;
  see the counterexample below.)
\<close>

theorem output_lengths_agree:
  assumes "valid_input seqA seqB wghA wghB resA resB prsA prsB score_dict"
    and "mode \<in> {''global'', ''overlap'', ''repeats'', ''dialign''}"
  shows "\<exists>outA outB sim.
           align_pairwise ar unassigned seqA seqB wghA wghB resA resB prsA prsB score_dict scale
             sonority_factor mode = Inr (outA, outB, sim) \<and>
           length outA = length outB"
proof -
  from scorer_AB_ok [OF assms(1)] obtain scorer where
    sc: "scorer_AB ar seqA seqB wghA wghB prsA prsB score_dict sonority_factor = Inr scorer" ..
  from assms(1) have len: "length resA = length seqA" "length resB = length seqB"
    and lB: "1 \<le> length seqB"
    by (simp_all add: valid_input_def)
  have "\<exists>f. select_align ar unassigned mode = Some f \<and>
          balanced (length seqA) (length seqB)
           (f resA (length seqA) resB (length seqB) scorer scale
              (replicate (length seqA + 1) 0) (replicate (length seqB + 1) 0))"
  proof -
    from assms(2) consider "mode = ''global''" | "mode = ''overlap''" | "mode = ''repeats''"
      | "mode = ''dialign''" by auto
    then show ?thesis
    proof cases
      case 1
      with global_align_balanced [OF lB, of "length seqA" ar resA resB scorer scale]
      show ?thesis by (simp add: select_align_def)
    next
      case 2
      with overlap_align_balanced [OF lB, of "length seqA" ar resA resB scorer scale]
      show ?thesis by (simp add: select_align_def)
    next
      case 3
      with repeats_align_balanced [OF lB, of "length seqA" ar resA resB scorer scale]
      show ?thesis by (simp add: select_align_def)
    next
      case 4
      with dialign_align_balanced [OF lB, of "length seqA" ar resA resB scorer scale]
      show ?thesis by (simp add: select_align_def)
    qed
  qed
  then obtain f where f: "select_align ar unassigned mode = Some f"
    and bal: "balanced (length seqA) (length seqB)
           (f resA (length seqA) resB (length seqB) scorer scale
              (replicate (length seqA + 1) 0) (replicate (length seqB + 1) 0))"
    by blast
  from align_with_balanced [of resA seqA resB seqB f scorer scale, OF len bal] f sc show ?thesis
    by (simp add: align_pairwise_def Let_def and_then_def)
qed

lemmas ev_driver = exact_def walk_start_def
  align_pairwise_def align_with_def and_then_def call_align_def select_align_def
  scorer_AB_def scorer_BA_def gap_weights_def sonority_def char_at_def item_def try_step_def
  restrictions_array_def retrieve_def retrieve_step_def insert_gaps_def list_insert_def
  for_cells_def store_def put_def fresh_matrix_def fresh_traceback_def
  restrictA_def restrictB_def upt_rec Let_def

lemmas ev_global = global_align_def global_fill_def global_init_def global_choice_def
  traceback_walk.simps

lemmas ev_local_align = local_align_def local_fill_def local_init_def local_choice_def local_cell_def
  mark_def local_walk.simps

theorem output_lengths_agree_witness:
  "valid_input [''a'', ''b''] [''a'', ''x'', ''b''] [- 2, - 2] [- 2, - 2, - 2] [0, 0] [0, 0, 0]
     ''VV'' ''VVV'' ident \<and>
   ''global'' \<in> {''global'', ''overlap'', ''repeats'', ''dialign''} \<and>
   align_pairwise exact None [''a'', ''b''] [''a'', ''x'', ''b''] [- 2, - 2] [- 2, - 2, - 2]
     [0, 0] [0, 0, 0] ''VV'' ''VVV'' ident 1 0 ''global''
     = Inr ([''a'', ''-'', ''b''], [''a'', ''x'', ''b''], 0)"
  using output_lengths_agree [of "[''a'', ''b'']" "[''a'', ''x'', ''b'']" "[- 2, - 2]" "[- 2, - 2, - 2]"
      "[0, 0]" "[0, 0, 0]" "''VV''" "''VVV''" ident "''global''" exact None 1 0]
  by (simp add: valid_input_def ident_def ev_driver ev_global)

text \<open>
  Claim C1 as stated fails in local mode: on the embedded-region scenario of the
  specification the outputs have lengths 5 and 3.
\<close>

theorem local_lengths_counterexample:
  "valid_input [''x'', ''a'', ''b'', ''c'', ''y''] [''a'', ''b'', ''c'']
     [- 5, - 5, - 5, - 5, - 5] [- 5, - 5, - 5] [0, 0, 0, 0, 0] [0, 0, 0] ''VVVVV'' ''VVV'' ident \<and>
   align_pairwise exact None [''x'', ''a'', ''b'', ''c'', ''y''] [''a'', ''b'', ''c'']
     [- 5, - 5, - 5, - 5, - 5] [- 5, - 5, - 5] [0, 0, 0, 0, 0] [0, 0, 0] ''VVVVV'' ''VVV'' ident 1 0
     ''local'' = Inr ([''*'', ''a'', ''b'', ''c'', ''*''], [''a'', ''b'', ''c''], 3) \<and>
   length [''*'', ''a'', ''b'', ''c'', ''*''] \<noteq> length [''a'', ''b'', ''c'']"
  by (simp add: valid_input_def ident_def ev_driver ev_local_align)
section \<open>The skip of the repeats kernel\<close>

lemmas ev_repeats = repeats_align_def repeats_fill_def repeats_init_def repeats_choice_def
  scan_inner_def scan_outer.simps repeats_walk.simps add_gaps_def

text \<open>
  Claim C3 says that the walk of the repeats kernel, at a cell with traceback 0, scans
  backward for the nearest cell whose traceback is 1 and jumps there. The scan of the
  source stops at the first cell it looks at, \<open>(i-1, j-1)\<close>, whatever its traceback is
  (lemma \<open>scan_outer_first\<close>). On the sequences \<open>[a, b]\<close> and \<open>[c]\<close> with all scores
  \<open>-1\<close> the walk starts on the 0-cell \<open>(1, 2)\<close> and jumps to \<open>(0, 1)\<close>, whose traceback
  is 2, although \<open>(0, 0)\<close> is the nearest cell with traceback 1; the gap counts are
  \<open>[0, 1, 0]\<close> and \<open>[1, 1]\<close>.
\<close>

theorem repeats_skip_failing_input:
  "snd (repeats_fill exact [0, 0] 2 [0] 1 sc_gaps 1) 1 2 = 0 \<and>
   scan_outer (snd (repeats_fill exact [0, 0] 2 [0] 1 sc_gaps 1)) 1 (2 - 1) 0 = (1, 0) \<and>
   snd (repeats_fill exact [0, 0] 2 [0] 1 sc_gaps 1) 0 1 = 2 \<and>
   snd (repeats_fill exact [0, 0] 2 [0] 1 sc_gaps 1) 0 0 = 1 \<and>
   repeats_align exact [0, 0] 2 [0] 1 sc_gaps 1 [0, 0, 0] [0, 0] = Some (0, [0, 1, 0], [1, 1]) \<and>
   align_pairwise exact None [''a'', ''b''] [''c''] [- 1, - 1] [- 1] [0, 0] [0] ''VV'' ''V'' ident 1 0
     ''repeats'' = Inr ([''a'', ''-'', ''b''], [''-'', ''c'', ''-''], 0)"
  by (simp add: ev_driver ev_repeats sc_gaps_def ident_def)

section \<open>Unknown modes\<close>

lemma select_align_unknown:
  assumes "mode \<notin> {''global'', ''local'', ''repeats'', ''overlap'', ''dialign''}"
  shows "select_align ar unassigned mode = unassigned"
  using assms by (simp add: select_align_def)

lemma select_align_known:
  assumes "known \<in> {''global'', ''local'', ''repeats'', ''overlap'', ''dialign''}"
  shows "select_align ar unassigned known = select_align ar None known"
  using assms by (auto simp: select_align_def)

lemma align_pairwise_stale:
  assumes "mode \<notin> {''global'', ''local'', ''repeats'', ''overlap'', ''dialign''}"
    and "known \<in> {''global'', ''local'', ''repeats'', ''overlap'', ''dialign''}"
  shows "align_pairwise ar (select_align ar None known) seqA seqB wghA wghB resA resB prsA prsB
           score_dict scale sonority_factor mode =
         align_pairwise ar None seqA seqB wghA wghB resA resB prsA prsB
           score_dict scale sonority_factor known"
  by (simp only: align_pairwise_def select_align_unknown [OF assms(1)])

lemma align_pairwise_raises:
  assumes "scorer_AB ar seqA seqB wghA wghB prsA prsB score_dict sonority_factor = Inl e"
  shows "align_pairwise ar unassigned seqA seqB wghA wghB resA resB prsA prsB score_dict scale
           sonority_factor mode = Inl e"
  using assms by (simp add: align_pairwise_def and_then_def Let_def)

lemma align_pairwise_nowhere:
  assumes "mode \<notin> {''global'', ''local'', ''repeats'', ''overlap'', ''dialign''}"
    and "valid_input seqA seqB wghA wghB resA resB prsA prsB score_dict"
  shows "align_pairwise ar None seqA seqB wghA wghB resA resB prsA prsB score_dict scale
           sonority_factor mode = Inl UndefinedBehaviour"
proof -
  from scorer_AB_ok [OF assms(2)] obtain scorer where
    "scorer_AB ar seqA seqB wghA wghB prsA prsB score_dict sonority_factor = Inr scorer" ..
  moreover from assms(2) have "length resA = length seqA" "length resB = length seqB"
    by (simp_all add: valid_input_def)
  ultimately show ?thesis
    using select_align_unknown [OF assms(1), of ar None]
    by (simp add: align_pairwise_def align_with_def call_align_def and_then_def Let_def
        restrictions_array_ok)
qed

lemma align_sequences_pairwise_short:
  assumes "length seqs \<le> 1"
  shows "align_sequences_pairwise ar unassigned seqs weights restrictions prosodics score_dict scale
           sonority_factor mode = Inr []"
proof -
  from assms have "length seqs = 0 \<or> length seqs = 1" by (cases seqs) simp_all
  then show ?thesis
    by (auto simp: align_sequences_pairwise_def Let_def try_step_simps)
qed

text \<open>
  Claim C8, amended. A mode string outside the five recognised ones is not checked: no
  kernel is selected and no error is reported for the mode; the pointer \<^verbatim>\<open>align\<close>
  keeps the indeterminate value it was declared with. What \<^verbatim>\<open>align_pairwise\<close> then
  does depends on that value. Malformed input raises its exception while the scorer is
  built, as for any mode. On valid input the call goes through the pointer: when the
  pointer holds the kernel that a recognised mode selects (as the same place of the stack
  can after a call with that mode), \<^verbatim>\<open>align_pairwise\<close> returns what it returns for
  that mode, an alignment; when the pointer points nowhere the run ends without a result
  and without a reported error. \<^verbatim>\<open>align_sequence_pairs\<close> with no pairs and
  \<^verbatim>\<open>align_sequences_pairwise\<close> with fewer than two sequences never use the pointer
  and return the empty list.
\<close>

theorem unknown_mode_unchecked:
  assumes "mode \<notin> {''global'', ''local'', ''repeats'', ''overlap'', ''dialign''}"
  shows "select_align ar unassigned mode = unassigned \<and>
         (\<forall>e. scorer_AB ar seqA seqB wghA wghB prsA prsB score_dict sonority_factor = Inl e \<longrightarrow>
            align_pairwise ar unassigned seqA seqB wghA wghB resA resB prsA prsB score_dict scale
              sonority_factor mode = Inl e) \<and>
         (\<forall>known \<in> {''global'', ''local'', ''repeats'', ''overlap'', ''dialign''}.
            align_pairwise ar (select_align ar None known) seqA seqB wghA wghB resA resB prsA prsB
              score_dict scale sonority_factor mode =
            align_pairwise ar None seqA seqB wghA wghB resA resB prsA prsB
              score_dict scale sonority_factor known) \<and>
         (valid_input seqA seqB wghA wghB resA resB prsA prsB score_dict \<longrightarrow>
            align_pairwise ar None seqA seqB wghA wghB resA resB prsA prsB score_dict scale
              sonority_factor mode = Inl UndefinedBehaviour) \<and>
         align_sequence_pairs ar unassigned [] weights restrictions prosodics score_dict scale
           sonority_factor mode = Inr [] \<and>
         (length seqs \<le> 1 \<longrightarrow>
            align_sequences_pairwise ar unassigned seqs weights' restrictions' prosodics' score_dict
              scale sonority_factor mode = Inr [])"
proof (intro conjI allI impI ballI)
  show "select_align ar unassigned mode = unassigned"
    by (rule select_align_unknown) (rule assms)
next
  fix e
  assume "scorer_AB ar seqA seqB wghA wghB prsA prsB score_dict sonority_factor = Inl e"
  then show "align_pairwise ar unassigned seqA seqB wghA wghB resA resB prsA prsB score_dict scale
              sonority_factor mode = Inl e"
    by (rule align_pairwise_raises)
next
  fix known :: string
  assume "known \<in> {''global'', ''local'', ''repeats'', ''overlap'', ''dialign''}"
  with assms show "align_pairwise ar (select_align ar None known) seqA seqB wghA wghB resA resB
              prsA prsB score_dict scale sonority_factor mode =
            align_pairwise ar None seqA seqB wghA wghB resA resB prsA prsB
              score_dict scale sonority_factor known"
    by (rule align_pairwise_stale)
next
  assume "valid_input seqA seqB wghA wghB resA resB prsA prsB score_dict"
  with assms show "align_pairwise ar None seqA seqB wghA wghB resA resB prsA prsB score_dict scale
              sonority_factor mode = Inl UndefinedBehaviour"
    by (rule align_pairwise_nowhere)
next
  show "align_sequence_pairs ar unassigned [] weights restrictions prosodics score_dict scale
           sonority_factor mode = Inr []"
    by (simp add: align_sequence_pairs_def)
next
  assume "length seqs \<le> 1"
  then show "align_sequences_pairwise ar unassigned seqs weights' restrictions' prosodics'
              score_dict scale sonority_factor mode = Inr []"
    by (rule align_sequences_pairwise_short)
qed

text \<open>
  The theorem at the mode \<open>"bogus"\<close>, on the sequences \<open>[x, a]\<close> and \<open>[a, b]\<close>: with the
  kernel of the mode \<open>"local"\<close> in the pointer the call returns the local alignment;
  with a pointer that points nowhere it ends without a result; with a weight vector
  that is too short it raises \<^verbatim>\<open>IndexError\<close>.
\<close>

theorem unknown_mode_unchecked_witness:
  "''bogus'' \<notin> {''global'', ''local'', ''repeats'', ''overlap'', ''dialign''} \<and>
   ''local'' \<in> {''global'', ''local'', ''repeats'', ''overlap'', ''dialign''} \<and>
   valid_input [''x'', ''a''] [''a'', ''b''] [- 1, - 1] [- 1, - 1] [0, 0] [0, 0] ''VV'' ''VV'' tens \<and>
   length [[''a'']] \<le> 1 \<and>
   select_align exact (Some (local_align exact)) ''bogus'' = Some (local_align exact) \<and>
   scorer_AB exact [''x'', ''a''] [''a'', ''b''] [- 1] [- 1, - 1] ''VV'' ''VV'' tens 0
     = Inl IndexError \<and>
   align_pairwise exact (Some (local_align exact)) [''x'', ''a''] [''a'', ''b''] [- 1] [- 1, - 1]
     [0, 0] [0, 0] ''VV'' ''VV'' tens 1 0 ''bogus'' = Inl IndexError \<and>
   align_pairwise exact (select_align exact None ''local'') [''x'', ''a''] [''a'', ''b'']
     [- 1, - 1] [- 1, - 1] [0, 0] [0, 0] ''VV'' ''VV'' tens 1 0 ''bogus''
     = Inr ([''*'', ''a''], [''a'', ''*''], 10) \<and>
   align_pairwise exact None [''x'', ''a''] [''a'', ''b''] [- 1, - 1] [- 1, - 1] [0, 0] [0, 0]
     ''VV'' ''VV'' tens 1 0 ''bogus'' = Inl UndefinedBehaviour \<and>
   align_sequences_pairwise exact None [[''a'']] [[- 1]] [[0]] [''V''] tens 1 0 ''bogus'' = Inr []"
  using unknown_mode_unchecked [of "''bogus''" exact "Some (local_align exact)"
      "[''x'', ''a'']" "[''a'', ''b'']" "[- 1]" "[- 1, - 1]" "''VV''" "''VV''" tens 0
      "[0, 0]" "[0, 0]" 1 "[]" "[]" "[]" "[]" "[]" "[]" "[]"]
    unknown_mode_unchecked [of "''bogus''" exact None
      "[''x'', ''a'']" "[''a'', ''b'']" "[- 1, - 1]" "[- 1, - 1]" "''VV''" "''VV''" tens 0
      "[0, 0]" "[0, 0]" 1 "[]" "[]" "[]" "[[''a'']]" "[[- 1]]" "[[0]]" "[''V'']"]
  by (simp add: valid_input_def tens_def ev_driver ev_local_align)

text \<open>
  Claim C8 as stated fails: with an unknown mode no error is reported for the mode, and
  the drivers can return a result. The batch drivers return the empty list on an empty
  batch; \<^verbatim>\<open>align_pairwise\<close> returns the local alignment of \<open>[x, a]\<close> and \<open>[a, b]\<close> when
  the pointer holds the local kernel, as it can in the compiled code after a call with
  the mode \<open>"local"\<close>.
\<close>

theorem unknown_mode_counterexample:
  "align_sequence_pairs exact None [] [] [] [] tens 1 0 ''bogus'' = Inr [] \<and>
   align_sequences_pairwise exact None [[''a'']] [[- 1]] [[0]] [''V''] tens 1 0 ''bogus'' = Inr [] \<and>
   align_pairwise exact (Some (local_align exact)) [''x'', ''a''] [''a'', ''b'']
     [- 1, - 1] [- 1, - 1] [0, 0] [0, 0] ''VV'' ''VV'' tens 1 0 ''bogus''
     = Inr ([''*'', ''a''], [''a'', ''*''], 10)"
  by (simp add: align_sequence_pairs_def align_sequences_pairwise_def tens_def ev_driver
      ev_local_align)
section \<open>The key order of the similarity mapping\<close>

lemma scorer_BA_swapped:
  "scorer_BA ar seqA seqB wghA wghB prsA prsB score_dict sonority_factor =
   scorer_AB ar seqA seqB wghA wghB prsA prsB (swapped score_dict) sonority_factor"
  by (simp add: scorer_BA_def scorer_AB_def swapped_def)

lemma and_then_single:
  "and_then r (\<lambda>t. Inr [t]) = map_sum id (\<lambda>t. [t]) r"
  by (cases r) (simp_all add: and_then_def)

lemma try_step_Inr: "try_step Inr r = r"
  by (cases r) (simp_all add: try_step_def)

lemma and_then_map_sum:
  "and_then r (\<lambda>x. map_sum id g (f x)) = map_sum id g (and_then r f)"
  by (cases r) (simp_all add: and_then_def)

text \<open>
  Claim C4. \<^verbatim>\<open>align_pairwise\<close> and \<^verbatim>\<open>align_sequence_pairs\<close> look the similarity
  mapping up with the key \<open>(A[j-1], B[i-1])\<close>, \<^verbatim>\<open>align_sequences_pairwise\<close> with the
  key \<open>(B[i-1], A[j-1])\<close>: on a pair of sequences the all-pairs driver does what the
  single-pair driver does with the keys of the mapping swapped, and the explicit-pairs
  driver does what the single-pair driver does. For a mapping that is not symmetric the
  all-pairs driver can therefore return another result for the same pair.
\<close>

theorem similarity_key_order:
  "align_sequences_pairwise ar unassigned [seqA, seqB] [wghA, wghB] [resA, resB] [prsA, prsB] score_dict scale
     sonority_factor mode =
   map_sum id (\<lambda>t. [t])
     (align_pairwise ar unassigned seqA seqB wghA wghB resA resB prsA prsB (swapped score_dict) scale
        sonority_factor mode) \<and>
   align_sequence_pairs ar unassigned [(seqA, seqB)] [(wghA, wghB)] [(resA, resB)] [(prsA, prsB)] score_dict scale
     sonority_factor mode =
   map_sum id (\<lambda>t. [t])
     (align_pairwise ar unassigned seqA seqB wghA wghB resA resB prsA prsB score_dict scale
        sonority_factor mode) \<and>
   align_pairwise exact None [''a''] [''b''] [- 1] [- 1] [0] [0] ''V'' ''V'' asym 1 0 ''global''
     = Inr ([''a''], [''b''], 1) \<and>
   align_sequences_pairwise exact None [[''a''], [''b'']] [[- 1], [- 1]] [[0], [0]] [''V'', ''V'']
     asym 1 0 ''global'' = Inr [([''a'', ''-''], [''-'', ''b''], - 2)]"
proof -
  have 1: "align_sequences_pairwise ar unassigned [seqA, seqB] [wghA, wghB] [resA, resB] [prsA, prsB] score_dict
     scale sonority_factor mode =
   map_sum id (\<lambda>t. [t])
     (align_pairwise ar unassigned seqA seqB wghA wghB resA resB prsA prsB (swapped score_dict) scale
        sonority_factor mode)"
    by (simp add: align_sequences_pairwise_def align_pairwise_def Let_def upt_rec item_def
        try_step_simps try_step_Inr and_then_single and_then_map_sum scorer_BA_swapped
        and_then_def [of "Inr x" for x])
  have 2: "align_sequence_pairs ar unassigned [(seqA, seqB)] [(wghA, wghB)] [(resA, resB)] [(prsA, prsB)]
     score_dict scale sonority_factor mode =
   map_sum id (\<lambda>t. [t])
     (align_pairwise ar unassigned seqA seqB wghA wghB resA resB prsA prsB score_dict scale
        sonority_factor mode)"
    by (simp add: align_sequence_pairs_def align_pairwise_def Let_def upt_rec item_def
        try_step_simps try_step_Inr and_then_single and_then_map_sum
        and_then_def [of "Inr x" for x])
  have 3: "align_pairwise exact None [''a''] [''b''] [- 1] [- 1] [0] [0] ''V'' ''V'' asym 1 0 ''global''
     = Inr ([''a''], [''b''], 1)"
    by (simp add: ev_driver ev_global asym_def)
  have 4: "align_sequences_pairwise exact None [[''a''], [''b'']] [[- 1], [- 1]] [[0], [0]]
     [''V'', ''V''] asym 1 0 ''global'' = Inr [([''a'', ''-''], [''-'', ''b''], - 2)]"
    by (simp add: align_sequences_pairwise_def ev_driver ev_global asym_def)
  from 1 2 3 4 show ?thesis by (intro conjI)
qed

section \<open>The restrictions\<close>



















end
